theory Spec2Isabelle
  imports Complex_Main "HOL-Library.AList" "HOL-Library.Log_Nat"
begin

section \<open>Python values used by the model\<close>

text \<open>
  The QoS durations and all time stamps of the source are Python floats, that is IEEE
  doubles, whose default is \<^verbatim>\<open>float('inf')\<close>.  A finite double is modelled by its exact
  real value, next to the two infinities; NaN and the sign of zero are outside the model.
\<close>

datatype pyfloat = Num real | Infty | NegInfty

datatype py_error = KeyError | AttributeError

fun fle :: "pyfloat \<Rightarrow> pyfloat \<Rightarrow> bool" where
  "fle (Num x) (Num y) = (x \<le> y)"
| "fle (Num x) Infty = True"
| "fle Infty (Num y) = False"
| "fle Infty Infty = True"
| "fle NegInfty b = True"
| "fle a NegInfty = False"

fun flt :: "pyfloat \<Rightarrow> pyfloat \<Rightarrow> bool" where
  "flt (Num x) (Num y) = (x < y)"
| "flt (Num x) Infty = True"
| "flt Infty (Num y) = False"
| "flt Infty Infty = False"
| "flt a NegInfty = False"
| "flt NegInfty b = True"

text \<open>
  The product of two doubles is the exact product rounded to the nearest double, ties to
  the even significand, and an infinity when the rounded value leaves the range.  For a
  positive \<open>x\<close>, \<open>exponent x\<close> is the integer \<open>e\<close> with \<open>2 powi e \<le> x < 2 powi (e + 1)\<close>;
  the spacing of the doubles around \<open>x\<close> is \<open>2 powi (e - 52)\<close>, and \<open>2 powi (- 1074)\<close> below
  the normal range.
\<close>

definition exponent :: "real \<Rightarrow> int" where
  "exponent x = (if 1 \<le> x then bitlen \<lfloor>x\<rfloor> - 1 else - bitlen (\<lceil>1 / x\<rceil> - 1))"

definition round_half_even :: "real \<Rightarrow> int" where
  "round_half_even q =
     (let f = \<lfloor>q\<rfloor>; r = q - of_int f
      in if r < 1 / 2 then f else if 1 / 2 < r then f + 1 else if even f then f else f + 1)"

definition round_double :: "real \<Rightarrow> pyfloat" where
  "round_double x =
     (if x = 0 then Num 0
      else
        (let e = max (exponent \<bar>x\<bar>) (- 1022);
             ulp = 2 powi (e - 52);
             r = of_int (round_half_even (x / ulp)) * ulp
         in if 2 powi 1024 \<le> \<bar>r\<bar> then (if 0 < x then Infty else NegInfty) else Num r))"

text \<open>
  \<open>fmul a c\<close> is the Python product \<^verbatim>\<open>a * c\<close> for a positive finite double \<open>c\<close>.  The
  literals of the source are the doubles nearest to them: \<^verbatim>\<open>0.9\<close> is
  8106479329266893 / 2 ^ 53 and \<^verbatim>\<open>0.8\<close> is 3602879701896397 / 2 ^ 52.
\<close>

fun fmul :: "pyfloat \<Rightarrow> real \<Rightarrow> pyfloat" where
  "fmul (Num x) c = round_double (x * c)"
| "fmul Infty c = Infty"
| "fmul NegInfty c = NegInfty"

definition lit_0_9 :: real where
  "lit_0_9 = 8106479329266893 / 9007199254740992"

definition lit_0_8 :: real where
  "lit_0_8 = 3602879701896397 / 4503599627370496"

text \<open>Python's \<^verbatim>\<open>str.split(sep)\<close>, \<^verbatim>\<open>startswith\<close> and \<^verbatim>\<open>endswith\<close>.\<close>

fun split_str :: "char \<Rightarrow> string \<Rightarrow> string list" where
  "split_str c [] = [[]]"
| "split_str c (x # xs) =
     (if x = c then [] # split_str c xs
      else (case split_str c xs of [] \<Rightarrow> [[x]] | p # ps \<Rightarrow> (x # p) # ps))"

definition startswith :: "string \<Rightarrow> string \<Rightarrow> bool" where
  "startswith s p = (take (length p) s = p)"

definition endswith :: "string \<Rightarrow> string \<Rightarrow> bool" where
  "endswith s p = (take (length p) (rev s) = rev p)"

section \<open>QoS profiles (core/dataTypes.py)\<close>

datatype QoSReliabilityPolicy = RELIABLE | BEST_EFFORT

datatype QoSDurabilityPolicy = VOLATILE | TRANSIENT_LOCAL | TRANSIENT | PERSISTENT

datatype QoSHistoryPolicy = KEEP_LAST | KEEP_ALL

datatype QoSLivelinessPolicy = AUTOMATIC | MANUAL_BY_TOPIC | MANUAL_BY_PARTICIPANT

datatype QoSOwnershipPolicy = SHARED | EXCLUSIVE

text \<open>
  The profile that the participant holds and \<^verbatim>\<open>DDSParticipant._qos_match\<close> reads, and on
  which the checker is evaluated: the dataclass of core/dataTypes.py (float durations, a
  partition list, resource limits, upper-case enum values).  The field \<^verbatim>\<open>partition\<close> is
  named \<open>partition_names\<close> here.
\<close>

record QoSProfile =
  reliability :: QoSReliabilityPolicy
  max_blocking_time :: pyfloat
  durability :: QoSDurabilityPolicy
  history :: QoSHistoryPolicy
  depth :: int
  deadline :: pyfloat
  lifespan :: pyfloat
  liveliness :: QoSLivelinessPolicy
  liveliness_lease_duration :: pyfloat
  ownership :: QoSOwnershipPolicy
  ownership_strength :: int
  max_samples :: int
  max_instances :: int
  max_samples_per_instance :: int
  minimum_separation :: pyfloat
  partition_names :: "string list"

definition default_qos :: QoSProfile where
  "default_qos = \<lparr> reliability = RELIABLE, max_blocking_time = Num 0, durability = VOLATILE,
     history = KEEP_LAST, depth = 10, deadline = Infty, lifespan = Infty,
     liveliness = AUTOMATIC, liveliness_lease_duration = Infty, ownership = SHARED,
     ownership_strength = 0, max_samples = 5000, max_instances = 5000,
     max_samples_per_instance = 5000, minimum_separation = Num 0, partition_names = [] \<rparr>"

text \<open>
  core/dataTypes.py validates nothing.  Well-formedness is the validation that
  \<^verbatim>\<open>QoSProfile.__post_init__\<close> of qos/policies.py performs: KEEP_LAST needs a positive
  depth, and every duration that is set is positive.
\<close>

fun fpos :: "pyfloat \<Rightarrow> bool" where
  "fpos (Num x) = (0 < x)"
| "fpos Infty = True"
| "fpos NegInfty = False"

definition well_formed :: "QoSProfile \<Rightarrow> bool" where
  "well_formed p =
     ((if history p = KEEP_LAST then 0 < depth p else True) \<and>
      fpos (deadline p) \<and> fpos (lifespan p) \<and> fpos (liveliness_lease_duration p))"

section \<open>The QoS compatibility checker (qos/compatibility.py)\<close>

text \<open>
  compatibility.py takes the names of the policy enums from qos/policies.py
  (\<^verbatim>\<open>from .policies import *\<close>): these are other classes than the enums of
  core/dataTypes.py whose members a profile holds, and the liveliness enum of
  qos/policies.py has the members AUTOMATIC, MANUAL_BY_NODE and MANUAL_BY_TOPIC.
\<close>

datatype PolicyReliability = P_RELIABLE | P_BEST_EFFORT

datatype PolicyDurability = P_VOLATILE | P_TRANSIENT_LOCAL | P_TRANSIENT | P_PERSISTENT

datatype PolicyHistory = P_KEEP_LAST | P_KEEP_ALL

datatype PolicyLiveliness = P_AUTOMATIC | P_MANUAL_BY_NODE | P_MANUAL_BY_TOPIC

text \<open>
  Python's \<^verbatim>\<open>==\<close> on members of two different Enum classes is identity, hence False, and
  such a member is no key of a dict keyed by the members of the other class:
  \<^verbatim>\<open>table.get(x, d)\<close> is \<^verbatim>\<open>d\<close>.
\<close>

definition foreign_eq :: "'a \<Rightarrow> 'b \<Rightarrow> bool" where
  "foreign_eq x y = False"

definition foreign_get :: "('k \<times> nat) list \<Rightarrow> 'a \<Rightarrow> nat \<Rightarrow> nat" where
  "foreign_get table x dflt =
     (case find (\<lambda>(k, v). foreign_eq x k) table of None \<Rightarrow> dflt | Some (k, v) \<Rightarrow> v)"

text \<open>
  The attribute lookup \<^verbatim>\<open>QoSLivelinessPolicy.NAME\<close> on the enum of qos/policies.py: a
  name that is no member raises AttributeError.
\<close>

definition policy_liveliness_member :: "string \<Rightarrow> py_error + PolicyLiveliness" where
  "policy_liveliness_member name =
     (if name = ''AUTOMATIC'' then Inr P_AUTOMATIC
      else if name = ''MANUAL_BY_NODE'' then Inr P_MANUAL_BY_NODE
      else if name = ''MANUAL_BY_TOPIC'' then Inr P_MANUAL_BY_TOPIC
      else Inl AttributeError)"

record QoSCompatibilityResult =
  compatible :: bool
  incompatible_policies :: "string list"
  warnings :: "string list"

definition check_reliability :: "QoSProfile \<Rightarrow> QoSProfile \<Rightarrow> bool" where
  "check_reliability pub sub =
     (if foreign_eq (reliability sub) P_RELIABLE then foreign_eq (reliability pub) P_RELIABLE
      else True)"

definition checker_durability_levels :: "(PolicyDurability \<times> nat) list" where
  "checker_durability_levels =
     [(P_VOLATILE, 0), (P_TRANSIENT_LOCAL, 1), (P_TRANSIENT, 2), (P_PERSISTENT, 3)]"

definition check_durability :: "QoSProfile \<Rightarrow> QoSProfile \<Rightarrow> bool" where
  "check_durability pub sub =
     (let pub_level = foreign_get checker_durability_levels (durability pub) 0;
          sub_level = foreign_get checker_durability_levels (durability sub) 0
      in pub_level \<ge> sub_level)"

definition check_deadline :: "QoSProfile \<Rightarrow> QoSProfile \<Rightarrow> bool" where
  "check_deadline pub sub = fle (deadline pub) (deadline sub)"

definition check_lifespan :: "QoSProfile \<Rightarrow> QoSProfile \<Rightarrow> bool" where
  "check_lifespan pub sub = fle (fmul (lifespan sub) lit_0_9) (lifespan pub)"

text \<open>
  \<^verbatim>\<open>_check_liveliness\<close> first builds its level table from the three members it names; the
  third lookup raises.
\<close>

definition check_liveliness :: "QoSProfile \<Rightarrow> QoSProfile \<Rightarrow> py_error + bool" where
  "check_liveliness pub sub =
     (case policy_liveliness_member ''AUTOMATIC'' of
        Inl e \<Rightarrow> Inl e
      | Inr automatic \<Rightarrow>
     (case policy_liveliness_member ''MANUAL_BY_TOPIC'' of
        Inl e \<Rightarrow> Inl e
      | Inr manual_by_topic \<Rightarrow>
     (case policy_liveliness_member ''MANUAL_BY_PARTICIPANT'' of
        Inl e \<Rightarrow> Inl e
      | Inr manual_by_participant \<Rightarrow>
          (let liveliness_levels = [(automatic, 0), (manual_by_topic, 1), (manual_by_participant, 2)];
               pub_level = foreign_get liveliness_levels (liveliness pub) 0;
               sub_level = foreign_get liveliness_levels (liveliness sub) 0
           in if pub_level < sub_level then Inr False
              else Inr (fle (liveliness_lease_duration pub) (liveliness_lease_duration sub))))))"

definition check_history :: "QoSProfile \<Rightarrow> QoSProfile \<Rightarrow> bool" where
  "check_history pub sub =
     (if foreign_eq (history sub) P_KEEP_ALL then foreign_eq (history pub) P_KEEP_ALL
      else if foreign_eq (history pub) P_KEEP_LAST \<and> foreign_eq (history sub) P_KEEP_LAST
        then depth pub \<ge> depth sub
      else True)"

definition check_ownership :: "QoSProfile \<Rightarrow> QoSProfile \<Rightarrow> bool" where
  "check_ownership pub sub = (ownership pub = ownership sub)"

definition partition_matches :: "string \<Rightarrow> string \<Rightarrow> bool" where
  "partition_matches pattern name =
     (if CHR ''*'' \<notin> set pattern \<and> CHR ''*'' \<notin> set name then pattern = name
      else if CHR ''*'' \<in> set pattern then
        (let parts = split_str CHR ''*'' pattern in
         if hd parts \<noteq> [] \<and> \<not> startswith name (hd parts) then False
         else if last parts \<noteq> [] \<and> \<not> endswith name (last parts) then False
         else True)
      else False)"

text \<open>
  The two nested loops over the partition sets return at the first matching pair, so the
  result is the existence of such a pair; an empty list stands for the set \<^verbatim>\<open>{''}\<close>.
\<close>

definition check_partition :: "QoSProfile \<Rightarrow> QoSProfile \<Rightarrow> bool" where
  "check_partition pub sub =
     (if partition_names pub = [] \<and> partition_names sub = [] then True
      else
        (let pub_partitions = (if partition_names pub \<noteq> [] then partition_names pub else [[]]);
             sub_partitions = (if partition_names sub \<noteq> [] then partition_names sub else [[]])
         in list_ex (\<lambda>pub_part. list_ex (\<lambda>sub_part. partition_matches pub_part sub_part)
                       sub_partitions) pub_partitions))"

text \<open>The warning texts are f-strings over the float values; only their kind is kept.\<close>

definition generate_warnings :: "QoSProfile \<Rightarrow> QoSProfile \<Rightarrow> string list" where
  "generate_warnings pub sub =
     (if flt (fmul (deadline sub) lit_0_8) (deadline pub) then [''deadline''] else []) @
     (if foreign_eq (history pub) P_KEEP_LAST \<and> depth pub < 5 then [''history depth''] else []) @
     (if flt (lifespan pub) (fmul (deadline pub) 2) then [''lifespan''] else []) @
     (if max_samples pub < depth pub * 2 then [''max_samples''] else [])"

text \<open>
  \<^verbatim>\<open>check_compatibility\<close> runs the checks in order; an exception of a check leaves the
  function, and no result record is built.
\<close>

definition check_compatibility :: "QoSProfile \<Rightarrow> QoSProfile \<Rightarrow> py_error + QoSCompatibilityResult" where
  "check_compatibility pub_qos sub_qos =
     (let incompatible4 =
        (if \<not> check_reliability pub_qos sub_qos then [''reliability''] else []) @
        (if \<not> check_durability pub_qos sub_qos then [''durability''] else []) @
        (if \<not> check_deadline pub_qos sub_qos then [''deadline''] else []) @
        (if \<not> check_lifespan pub_qos sub_qos then [''lifespan''] else [])
      in case check_liveliness pub_qos sub_qos of
           Inl e \<Rightarrow> Inl e
         | Inr liveliness_ok \<Rightarrow>
             (let incompatible = incompatible4 @
                (if \<not> liveliness_ok then [''liveliness''] else []) @
                (if \<not> check_history pub_qos sub_qos then [''history''] else []) @
                (if \<not> check_ownership pub_qos sub_qos then [''ownership''] else []) @
                (if \<not> check_partition pub_qos sub_qos then [''partition''] else [])
              in Inr \<lparr> compatible = (length incompatible = 0),
                       incompatible_policies = incompatible,
                       warnings = generate_warnings pub_qos sub_qos \<rparr>))"

section \<open>Discovery data (dds/discovery.py)\<close>

record ParticipantInfo =
  pi_guid :: string
  pi_domain_id :: int
  pi_lease_expiry :: real
  pi_vendor_id :: string

text \<open>\<^verbatim>\<open>EndpointInfo.participant_guid\<close> defaults to the empty string.\<close>

record EndpointInfo =
  ep_guid :: string
  ep_participant_guid :: string
  ep_topic :: string
  ep_type_name :: string
  ep_kind :: string
  ep_qos :: QoSProfile
  ep_partition :: "string list"

record DiscoveryMessage =
  dm_participant_guid :: string
  dm_domain_id :: int
  dm_endpoints :: "EndpointInfo list"
  dm_lease_duration :: real
  dm_timestamp :: real

section \<open>The domain participant (participant.py)\<close>

text \<open>
  A Python dict is an association list in insertion order: \<open>AList.update\<close> overwrites
  an existing key in place and appends a new one, \<open>AList.delete\<close> is \<^verbatim>\<open>del d[k]\<close>,
  \<open>map_of\<close> is the lookup.  Every \<^verbatim>\<open>time.time()\<close> of the source is an explicit argument
  \<open>now\<close>, and every \<^verbatim>\<open>uuid.uuid4()\<close> an explicit argument \<open>guid\<close>.  Trace logging is
  not modelled.
\<close>

record DataWriter =
  w_guid :: string
  w_qos :: QoSProfile
  w_topic_name :: string
  w_type_name :: string
  w_partition :: "string list"

record DataReader =
  r_guid :: string
  r_qos :: QoSProfile
  r_topic_name :: string
  r_type_name :: string
  r_partition :: "string list"

record DDSDataMessage =
  msg_writer_guid :: string
  msg_sequence_number :: int
  msg_topic :: string
  msg_data :: string
  msg_timestamp :: real

text \<open>
  The attributes of a \<^verbatim>\<open>DDSParticipant\<close> that the modelled methods read, followed by the
  entries of its \<^verbatim>\<open>state\<close> dict.
\<close>

record DDSParticipant =
  domain_id :: int
  participant_guid :: string
  discovery_period :: real
  heartbeat_period :: real
  lease_duration :: real
  phase :: string
  initialized :: bool
  discovered_participants :: "(string \<times> ParticipantInfo) list"
  discovered_endpoints :: "(string \<times> EndpointInfo) list"
  local_writers :: "(string \<times> DataWriter list) list"
  local_readers :: "(string \<times> DataReader list) list"
  matched_endpoints :: "(string \<times> string set) list"
  pending_messages :: "DDSDataMessage list"
  last_discovery_time :: real
  last_heartbeat_time :: real
  sequence_numbers :: "(string \<times> int) list"

definition new_participant :: "string \<Rightarrow> int \<Rightarrow> real \<Rightarrow> real \<Rightarrow> DDSParticipant" where
  "new_participant guid did period lease =
     \<lparr> domain_id = did, participant_guid = guid, discovery_period = period,
       heartbeat_period = 1 / 10, lease_duration = lease,
       phase = ''initializing'', initialized = False,
       discovered_participants = [], discovered_endpoints = [],
       local_writers = [], local_readers = [], matched_endpoints = [],
       pending_messages = [], last_discovery_time = 0, last_heartbeat_time = 0,
       sequence_numbers = [] \<rparr>"

text \<open>
  \<^verbatim>\<open>timeAdvance\<close> reads the wall clock and assigns \<^verbatim>\<open>state['phase']\<close>; the model returns
  the value together with the participant after the call.
\<close>

definition timeAdvance :: "DDSParticipant \<Rightarrow> real \<Rightarrow> pyfloat \<times> DDSParticipant" where
  "timeAdvance self current_time =
     (if phase self = ''initializing'' then (Num (1 / 100), self)
      else if phase self = ''active'' then
        (let time_since_discovery = current_time - last_discovery_time self;
             time_since_heartbeat = current_time - last_heartbeat_time self
         in if time_since_discovery \<ge> discovery_period self then
              (Num (1 / 1000), self\<lparr>phase := ''discovering''\<rparr>)
            else if time_since_heartbeat \<ge> heartbeat_period self then
              (Num (1 / 1000), self\<lparr>phase := ''heartbeat''\<rparr>)
            else if pending_messages self \<noteq> [] then
              (Num (1 / 10000), self\<lparr>phase := ''sending_data''\<rparr>)
            else
              (let next_discovery = discovery_period self - time_since_discovery;
                   next_heartbeat = heartbeat_period self - time_since_heartbeat
               in (Num (min next_discovery next_heartbeat), self)))
      else if phase self \<in> set [''discovering'', ''heartbeat'', ''sending_data''] then
        (Num (1 / 1000), self)
      else (Infty, self))"

definition intTransition :: "DDSParticipant \<Rightarrow> real \<Rightarrow> DDSParticipant" where
  "intTransition self current_time =
     (if phase self = ''initializing'' then
        self\<lparr>initialized := True, phase := ''active'',
             last_discovery_time := current_time, last_heartbeat_time := current_time\<rparr>
      else if phase self = ''discovering'' then
        self\<lparr>last_discovery_time := current_time, phase := ''active''\<rparr>
      else if phase self = ''heartbeat'' then
        self\<lparr>last_heartbeat_time := current_time, phase := ''active''\<rparr>
      else if phase self = ''sending_data'' then self\<lparr>phase := ''active''\<rparr>
      else self)"

text \<open>\<^verbatim>\<open>d[topic].append(x)\<close> after \<^verbatim>\<open>if topic not in d: d[topic] = []\<close>.\<close>

definition append_at :: "(string \<times> 'a list) list \<Rightarrow> string \<Rightarrow> 'a \<Rightarrow> (string \<times> 'a list) list" where
  "append_at d topic x =
     (case map_of d topic of
        None \<Rightarrow> AList.update topic [x] d
      | Some xs \<Rightarrow> AList.update topic (xs @ [x]) d)"

definition create_writer ::
  "DDSParticipant \<Rightarrow> string \<Rightarrow> string \<Rightarrow> string \<Rightarrow> QoSProfile \<Rightarrow> DataWriter \<times> DDSParticipant" where
  "create_writer self guid topic type_name writer_qos =
     (let writer = \<lparr> w_guid = guid, w_qos = writer_qos, w_topic_name = topic,
                      w_type_name = type_name, w_partition = partition_names writer_qos \<rparr>
      in (writer,
          self\<lparr>local_writers := append_at (local_writers self) topic writer,
               sequence_numbers := AList.update guid 0 (sequence_numbers self),
               phase := ''discovering''\<rparr>))"

definition create_reader ::
  "DDSParticipant \<Rightarrow> string \<Rightarrow> string \<Rightarrow> string \<Rightarrow> QoSProfile \<Rightarrow> DataReader \<times> DDSParticipant" where
  "create_reader self guid topic type_name reader_qos =
     (let reader = \<lparr> r_guid = guid, r_qos = reader_qos, r_topic_name = topic,
                      r_type_name = type_name, r_partition = partition_names reader_qos \<rparr>
      in (reader,
          self\<lparr>local_readers := append_at (local_readers self) topic reader,
               phase := ''discovering''\<rparr>))"

text \<open>
  The search loop of \<^verbatim>\<open>write_data\<close>: the \<^verbatim>\<open>break\<close> leaves only the inner loop, so the
  writer found is the first match of the last topic that has one.
\<close>

definition find_writer :: "(string \<times> DataWriter list) list \<Rightarrow> string \<Rightarrow> DataWriter option" where
  "find_writer lw writer_guid =
     foldl (\<lambda>writer (topic, writers).
              (case find (\<lambda>w. w_guid w = writer_guid) writers of
                 None \<Rightarrow> writer
               | Some w \<Rightarrow> Some w)) None lw"

text \<open>
  \<^verbatim>\<open>write_data\<close> returns its boolean and the participant after the call; the lookup
  \<^verbatim>\<open>sequence_numbers[writer_guid]\<close> raises KeyError on a missing key.
\<close>

definition write_data ::
  "DDSParticipant \<Rightarrow> string \<Rightarrow> string \<Rightarrow> real \<Rightarrow> py_error + (bool \<times> DDSParticipant)" where
  "write_data self writer_guid data now =
     (case find_writer (local_writers self) writer_guid of
        None \<Rightarrow> Inr (False, self)
      | Some writer \<Rightarrow>
          (case map_of (sequence_numbers self) writer_guid of
             None \<Rightarrow> Inl KeyError
           | Some seq_num \<Rightarrow>
               (let self1 = self\<lparr>sequence_numbers :=
                               AList.update writer_guid (seq_num + 1) (sequence_numbers self)\<rparr>;
                    dds_msg = \<lparr> msg_writer_guid = writer_guid, msg_sequence_number = seq_num,
                                msg_topic = w_topic_name writer, msg_data = data,
                                msg_timestamp = now \<rparr>
                in if map_of (matched_endpoints self1) writer_guid \<noteq> None then
                     Inr (True, self1\<lparr>pending_messages := pending_messages self1 @ [dds_msg]\<rparr>)
                   else Inr (False, self1))))"

definition create_discovery_message :: "DDSParticipant \<Rightarrow> real \<Rightarrow> DiscoveryMessage" where
  "create_discovery_message self now =
     (let writer_eps =
            concat (map (\<lambda>(topic, writers).
              map (\<lambda>writer. \<lparr> ep_guid = w_guid writer, ep_participant_guid = [],
                               ep_topic = w_topic_name writer, ep_type_name = w_type_name writer,
                               ep_kind = ''writer'', ep_qos = w_qos writer,
                               ep_partition = w_partition writer \<rparr>) writers)
              (local_writers self));
          reader_eps =
            concat (map (\<lambda>(topic, readers).
              map (\<lambda>reader. \<lparr> ep_guid = r_guid reader, ep_participant_guid = [],
                               ep_topic = r_topic_name reader, ep_type_name = r_type_name reader,
                               ep_kind = ''reader'', ep_qos = r_qos reader,
                               ep_partition = r_partition reader \<rparr>) readers)
              (local_readers self))
      in \<lparr> dm_participant_guid = participant_guid self, dm_domain_id = domain_id self,
           dm_endpoints = writer_eps @ reader_eps, dm_lease_duration = lease_duration self,
           dm_timestamp = now \<rparr>)"

text \<open>
  \<^verbatim>\<open>_qos_match\<close>: the participant's own check, on reliability, durability, deadline and
  the literal intersection of the partition lists.  It reads the value strings of the
  enum members, and its durability table is keyed by them.
\<close>

fun durability_levels :: "QoSDurabilityPolicy \<Rightarrow> nat" where
  "durability_levels VOLATILE = 0"
| "durability_levels TRANSIENT_LOCAL = 1"
| "durability_levels TRANSIENT = 2"
| "durability_levels PERSISTENT = 3"

definition qos_match :: "QoSProfile \<Rightarrow> QoSProfile \<Rightarrow> bool" where
  "qos_match writer_qos reader_qos =
     (if reliability reader_qos = RELIABLE \<and> reliability writer_qos = BEST_EFFORT then False
      else if durability_levels (durability reader_qos) > durability_levels (durability writer_qos)
        then False
      else if flt (deadline reader_qos) (deadline writer_qos) then False
      else if partition_names writer_qos \<noteq> [] \<and> partition_names reader_qos \<noteq> [] \<and>
              set (partition_names writer_qos) \<inter> set (partition_names reader_qos) = {}
        then False
      else True)"

text \<open>
  \<^verbatim>\<open>if g not in matched: matched[g] = set()\<close> followed by \<^verbatim>\<open>matched[g].add(remote)\<close>.
\<close>

definition add_match :: "(string \<times> string set) list \<Rightarrow> string \<Rightarrow> string \<Rightarrow> (string \<times> string set) list" where
  "add_match m local_guid remote_guid =
     (case map_of m local_guid of
        None \<Rightarrow> AList.update local_guid {remote_guid} m
      | Some S \<Rightarrow> AList.update local_guid (insert remote_guid S) m)"

definition check_endpoint_matching :: "DDSParticipant \<Rightarrow> EndpointInfo \<Rightarrow> DDSParticipant" where
  "check_endpoint_matching self remote_endpoint =
     (if ep_kind remote_endpoint = ''writer'' then
        (case map_of (local_readers self) (ep_topic remote_endpoint) of
           None \<Rightarrow> self
         | Some readers \<Rightarrow>
             foldl (\<lambda>s reader.
                      if qos_match (ep_qos remote_endpoint) (r_qos reader) then
                        s\<lparr>matched_endpoints :=
                            add_match (matched_endpoints s) (r_guid reader) (ep_guid remote_endpoint)\<rparr>
                      else s) self readers)
      else if ep_kind remote_endpoint = ''reader'' then
        (case map_of (local_writers self) (ep_topic remote_endpoint) of
           None \<Rightarrow> self
         | Some writers \<Rightarrow>
             foldl (\<lambda>s writer.
                      if qos_match (w_qos writer) (ep_qos remote_endpoint) then
                        s\<lparr>matched_endpoints :=
                            add_match (matched_endpoints s) (w_guid writer) (ep_guid remote_endpoint)\<rparr>
                      else s) self writers)
      else self)"

definition process_discovery_message :: "DDSParticipant \<Rightarrow> DiscoveryMessage \<Rightarrow> real \<Rightarrow> DDSParticipant" where
  "process_discovery_message self msg now =
     (if dm_participant_guid msg = participant_guid self then self
      else
        (let self1 = self\<lparr>discovered_participants :=
                 AList.update (dm_participant_guid msg)
                   \<lparr> pi_guid = dm_participant_guid msg, pi_domain_id = dm_domain_id msg,
                     pi_lease_expiry = now + dm_lease_duration msg, pi_vendor_id = ''ROS2_DEVS'' \<rparr>
                   (discovered_participants self)\<rparr>
         in foldl (\<lambda>s endpoint.
                     check_endpoint_matching
                       (s\<lparr>discovered_endpoints :=
                            AList.update (ep_guid endpoint) endpoint (discovered_endpoints s)\<rparr>)
                       endpoint) self1 (dm_endpoints msg)))"

text \<open>
  \<^verbatim>\<open>cleanup_expired_participants\<close>: the body of the loop over the expired guids, then the
  sweep.  Each deleted endpoint guid is discarded from every matched set.
\<close>

definition remove_expired :: "DDSParticipant \<Rightarrow> string \<Rightarrow> DDSParticipant" where
  "remove_expired self guid =
     (let self1 = self\<lparr>discovered_participants := AList.delete guid (discovered_participants self)\<rparr>;
          to_remove = map fst (filter (\<lambda>(ep_guid', ep_info). ep_participant_guid ep_info = guid)
                                 (discovered_endpoints self1))
      in foldl (\<lambda>s ep_guid'.
                  s\<lparr>discovered_endpoints := AList.delete ep_guid' (discovered_endpoints s),
                    matched_endpoints :=
                      map (\<lambda>(local_guid, matched). (local_guid, matched - {ep_guid'}))
                        (matched_endpoints s)\<rparr>) self1 to_remove)"

definition cleanup_expired_participants :: "DDSParticipant \<Rightarrow> real \<Rightarrow> DDSParticipant" where
  "cleanup_expired_participants self current_time =
     (let expired = map fst (filter (\<lambda>(guid, info). current_time > pi_lease_expiry info)
                               (discovered_participants self))
      in foldl remove_expired self expired)"

text \<open>The matched set of an endpoint guid (empty when the guid has no entry).\<close>

definition matched_set :: "DDSParticipant \<Rightarrow> string \<Rightarrow> string set" where
  "matched_set self g = (case map_of (matched_endpoints self) g of None \<Rightarrow> {} | Some S \<Rightarrow> S)"

text \<open>\<^verbatim>\<open>_get_all_writers\<close> and \<^verbatim>\<open>_get_all_readers\<close>.\<close>

definition get_all_writers :: "DDSParticipant \<Rightarrow> DataWriter list" where
  "get_all_writers self = concat (map snd (local_writers self))"

definition get_all_readers :: "DDSParticipant \<Rightarrow> DataReader list" where
  "get_all_readers self = concat (map snd (local_readers self))"

text \<open>The local readers and writers registered on a topic (none when the topic is no key).\<close>

definition readers_on_topic :: "DDSParticipant \<Rightarrow> string \<Rightarrow> DataReader list" where
  "readers_on_topic self topic =
     (case map_of (local_readers self) topic of None \<Rightarrow> [] | Some readers \<Rightarrow> readers)"

definition writers_on_topic :: "DDSParticipant \<Rightarrow> string \<Rightarrow> DataWriter list" where
  "writers_on_topic self topic =
     (case map_of (local_writers self) topic of None \<Rightarrow> [] | Some writers \<Rightarrow> writers)"

subsection \<open>Scenario: participant A offers a writer, participant B holds a reader\<close>

definition writer_side :: "QoSProfile \<Rightarrow> DDSParticipant" where
  "writer_side q = snd (create_writer (new_participant ''A'' 0 1 1) ''w1'' ''/t'' ''T'' q)"

definition reader_side :: "QoSProfile \<Rightarrow> DDSParticipant" where
  "reader_side q = snd (create_reader (new_participant ''B'' 0 1 1) ''r1'' ''/t'' ''T'' q)"

text \<open>B after receiving, at time 0, the discovery message that A assembles.\<close>

definition after_discovery :: "QoSProfile \<Rightarrow> QoSProfile \<Rightarrow> DDSParticipant" where
  "after_discovery wq rq =
     process_discovery_message (reader_side rq) (create_discovery_message (writer_side wq) 0) 0"

subsection \<open>Reachable participant states\<close>

text \<open>
  The calls a participant receives, each with the clock reading and the fresh guid it
  would draw; a reachable state is the result of any sequence of them on a participant
  as constructed.  A call that raises leaves the state as it was.
\<close>

datatype participant_op =
    CreateWriter string string string QoSProfile
  | CreateReader string string string QoSProfile
  | WriteData string string real
  | ProcessDiscovery DiscoveryMessage real
  | CleanupExpired real
  | TimeAdvance real
  | IntTransition real

fun apply_op :: "DDSParticipant \<Rightarrow> participant_op \<Rightarrow> DDSParticipant" where
  "apply_op s (CreateWriter guid topic type_name q) = snd (create_writer s guid topic type_name q)"
| "apply_op s (CreateReader guid topic type_name q) = snd (create_reader s guid topic type_name q)"
| "apply_op s (WriteData writer_guid data now) =
     (case write_data s writer_guid data now of Inl e \<Rightarrow> s | Inr (ok, s') \<Rightarrow> s')"
| "apply_op s (ProcessDiscovery msg now) = process_discovery_message s msg now"
| "apply_op s (CleanupExpired now) = cleanup_expired_participants s now"
| "apply_op s (TimeAdvance now) = snd (timeAdvance s now)"
| "apply_op s (IntTransition now) = intTransition s now"

definition run_ops :: "DDSParticipant \<Rightarrow> participant_op list \<Rightarrow> DDSParticipant" where
  "run_ops s ops = foldl apply_op s ops"

text \<open>
  The shape of the Match Table: every key is the guid of a local endpoint and every
  member of a matched set is the guid of a stored discovered endpoint.
\<close>

definition local_guids :: "DDSParticipant \<Rightarrow> string set" where
  "local_guids s = w_guid ` set (get_all_writers s) \<union> r_guid ` set (get_all_readers s)"

definition match_table_inv :: "DDSParticipant \<Rightarrow> bool" where
  "match_table_inv s =
     (\<forall>(l, S) \<in> set (matched_endpoints s).
        l \<in> local_guids s \<and> S \<subseteq> fst ` set (discovered_endpoints s))"

text \<open>
  An announcement whose endpoint descriptor names its owner, as a sender other than
  \<^verbatim>\<open>_create_discovery_message\<close> may build it.
\<close>

definition owned_announcement :: DiscoveryMessage where
  "owned_announcement =
     \<lparr> dm_participant_guid = ''A'', dm_domain_id = 0,
       dm_endpoints = [\<lparr> ep_guid = ''w1'', ep_participant_guid = ''A'', ep_topic = ''/t'',
                         ep_type_name = ''T'', ep_kind = ''writer'', ep_qos = default_qos,
                         ep_partition = [] \<rparr>],
       dm_lease_duration = 1, dm_timestamp = 0 \<rparr>"

section \<open>The discovery database (dds/discovery.py)\<close>

record DiscoveryDatabase =
  participants :: "(string \<times> ParticipantInfo) list"
  endpoints :: "(string \<times> EndpointInfo) list"
  topic_cache :: "(string \<times> string set) list"

definition empty_db :: DiscoveryDatabase where
  "empty_db = \<lparr> participants = [], endpoints = [], topic_cache = [] \<rparr>"

definition add_participant :: "DiscoveryDatabase \<Rightarrow> ParticipantInfo \<Rightarrow> DiscoveryDatabase" where
  "add_participant db info = db\<lparr>participants := AList.update (pi_guid info) info (participants db)\<rparr>"

definition add_endpoint :: "DiscoveryDatabase \<Rightarrow> EndpointInfo \<Rightarrow> DiscoveryDatabase" where
  "add_endpoint db info =
     (let db1 = db\<lparr>endpoints := AList.update (ep_guid info) info (endpoints db)\<rparr>;
          db2 = (if map_of (topic_cache db1) (ep_topic info) = None
                 then db1\<lparr>topic_cache := AList.update (ep_topic info) {} (topic_cache db1)\<rparr>
                 else db1)
      in (case map_of (topic_cache db2) (ep_topic info) of
            None \<Rightarrow> db2
          | Some S \<Rightarrow>
              db2\<lparr>topic_cache := AList.update (ep_topic info) (insert (ep_guid info) S)
                                    (topic_cache db2)\<rparr>))"

definition remove_endpoint :: "DiscoveryDatabase \<Rightarrow> string \<Rightarrow> DiscoveryDatabase" where
  "remove_endpoint db guid =
     (case map_of (endpoints db) guid of
        None \<Rightarrow> db
      | Some ep_info \<Rightarrow>
          (let db1 = db\<lparr>endpoints := AList.delete guid (endpoints db)\<rparr>
           in (case map_of (topic_cache db1) (ep_topic ep_info) of
                 None \<Rightarrow> db1
               | Some S \<Rightarrow>
                   (if S - {guid} = {}
                    then db1\<lparr>topic_cache := AList.delete (ep_topic ep_info) (topic_cache db1)\<rparr>
                    else db1\<lparr>topic_cache := AList.update (ep_topic ep_info) (S - {guid})
                                                (topic_cache db1)\<rparr>))))"

definition remove_participant :: "DiscoveryDatabase \<Rightarrow> string \<Rightarrow> DiscoveryDatabase" where
  "remove_participant db guid =
     (let db1 = (if map_of (participants db) guid \<noteq> None
                 then db\<lparr>participants := AList.delete guid (participants db)\<rparr>
                 else db);
          to_remove = map fst (filter (\<lambda>(ep_guid', ep_info). ep_participant_guid ep_info = guid)
                                 (endpoints db1))
      in foldl remove_endpoint db1 to_remove)"

definition cleanup_expired :: "DiscoveryDatabase \<Rightarrow> real \<Rightarrow> DiscoveryDatabase" where
  "cleanup_expired db current_time =
     (let expired = map fst (filter (\<lambda>(guid, info). current_time > pi_lease_expiry info)
                               (participants db))
      in foldl remove_participant db expired)"

text \<open>The calls of the database; a reachable database is the result of any sequence of them.\<close>

datatype db_op =
    AddParticipant ParticipantInfo
  | AddEndpoint EndpointInfo
  | RemoveEndpoint string
  | RemoveParticipant string
  | Cleanup real

fun apply_db_op :: "DiscoveryDatabase \<Rightarrow> db_op \<Rightarrow> DiscoveryDatabase" where
  "apply_db_op db (AddParticipant info) = add_participant db info"
| "apply_db_op db (AddEndpoint info) = add_endpoint db info"
| "apply_db_op db (RemoveEndpoint guid) = remove_endpoint db guid"
| "apply_db_op db (RemoveParticipant guid) = remove_participant db guid"
| "apply_db_op db (Cleanup now) = cleanup_expired db now"

definition run_db :: "db_op list \<Rightarrow> DiscoveryDatabase" where
  "run_db ops = foldl apply_db_op empty_db ops"

text \<open>
  What holds of every reachable database: no topic is mapped to the empty set, and every
  participant is stored under its own guid.
\<close>

definition db_inv :: "DiscoveryDatabase \<Rightarrow> bool" where
  "db_inv db = ((\<forall>t. map_of (topic_cache db) t \<noteq> Some {}) \<and>
                (\<forall>k info. map_of (participants db) k = Some info \<longrightarrow> pi_guid info = k))"

subsection \<open>Scenario: two participants, three endpoints on two topics\<close>

definition endpoint_of :: "string \<Rightarrow> string \<Rightarrow> string \<Rightarrow> EndpointInfo" where
  "endpoint_of guid owner topic =
     \<lparr> ep_guid = guid, ep_participant_guid = owner, ep_topic = topic, ep_type_name = ''T'',
       ep_kind = ''writer'', ep_qos = default_qos, ep_partition = [] \<rparr>"

definition participant_of :: "string \<Rightarrow> real \<Rightarrow> ParticipantInfo" where
  "participant_of guid expiry =
     \<lparr> pi_guid = guid, pi_domain_id = 0, pi_lease_expiry = expiry, pi_vendor_id = ''ROS2_DEVS'' \<rparr>"

definition example_db_ops :: "db_op list" where
  "example_db_ops =
     [AddParticipant (participant_of ''A'' 1), AddParticipant (participant_of ''B'' 5),
      AddEndpoint (endpoint_of ''e1'' ''A'' ''/t''), AddEndpoint (endpoint_of ''e2'' ''B'' ''/t''),
      AddEndpoint (endpoint_of ''e3'' ''A'' ''/u''), RemoveEndpoint ''e3'']"

section \<open>The transport layer (dds/transport.py)\<close>

text \<open>
  transport.py takes \<^verbatim>\<open>MessageType\<close> from core, which exports the enum of
  core/message.py.  The attribute lookup \<^verbatim>\<open>MessageType.NAME\<close> raises AttributeError
  for a name that is no member.
\<close>

datatype MessageType =
    DATA | SERVICE_REQUEST | SERVICE_RESPONSE | ACTION_GOAL | ACTION_RESULT
  | ACTION_FEEDBACK | PARAMETER | LIFECYCLE

definition message_type_member :: "string \<Rightarrow> py_error + MessageType" where
  "message_type_member name =
     (if name = ''DATA'' then Inr DATA
      else if name = ''SERVICE_REQUEST'' then Inr SERVICE_REQUEST
      else if name = ''SERVICE_RESPONSE'' then Inr SERVICE_RESPONSE
      else if name = ''ACTION_GOAL'' then Inr ACTION_GOAL
      else if name = ''ACTION_RESULT'' then Inr ACTION_RESULT
      else if name = ''ACTION_FEEDBACK'' then Inr ACTION_FEEDBACK
      else if name = ''PARAMETER'' then Inr PARAMETER
      else if name = ''LIFECYCLE'' then Inr LIFECYCLE
      else Inl AttributeError)"

text \<open>
  Modelled from the spec: the message value that \<^verbatim>\<open>TransportRouter._select_transport\<close>
  reads.  It reads the attributes \<^verbatim>\<open>source_node\<close>, \<^verbatim>\<open>destination_node\<close>, \<^verbatim>\<open>type\<close> and
  \<^verbatim>\<open>qos_profile\<close>; no class under src/ declares these four together, and the record
  holds just them.
\<close>

record Message =
  source_node :: string
  destination_node :: string
  msg_type :: MessageType
  qos_profile :: "QoSProfile option"

datatype TransportType = SHARED_MEMORY | UDP_MULTICAST | UDP_UNICAST | TCP

text \<open>
  \<^verbatim>\<open>_select_transport\<close>.  The second test evaluates \<^verbatim>\<open>MessageType.DISCOVERY\<close>; the third
  compares the profile's reliability with the member of the enum of qos/policies.py,
  which core exports as \<^verbatim>\<open>QoSReliabilityPolicy\<close>.
\<close>

definition select_transport :: "Message \<Rightarrow> py_error + TransportType" where
  "select_transport message =
     (if source_node message = destination_node message then Inr SHARED_MEMORY
      else
        (case message_type_member ''DISCOVERY'' of
           Inl e \<Rightarrow> Inl e
         | Inr discovery \<Rightarrow>
             (if msg_type message = discovery then Inr UDP_MULTICAST
              else if (case qos_profile message of
                         None \<Rightarrow> False
                       | Some q \<Rightarrow> foreign_eq (reliability q) P_RELIABLE) then Inr TCP
              else Inr UDP_UNICAST)))"

subsection \<open>The atomic models\<close>

text \<open>
  An atomic model is its four methods.  The state of \<^verbatim>\<open>TransportRouter\<close> and of
  \<^verbatim>\<open>SharedMemoryTransport\<close> is \<^verbatim>\<open>None\<close> until \<^verbatim>\<open>extTransition\<close> returns a one-entry dict
  from a port to the message, which the simulator stores as the new state.  The input of
  an external transition is the value on the model's only input port, if any.
\<close>

datatype router_port = shm_out | multicast_out | unicast_out | tcp_out

definition router_timeAdvance :: "(router_port \<times> Message) option \<Rightarrow> pyfloat" where
  "router_timeAdvance state = Infty"

definition router_outputFnc :: "(router_port \<times> Message) option \<Rightarrow> (router_port \<times> Message) list" where
  "router_outputFnc state = []"

definition router_intTransition :: "(router_port \<times> Message) option \<Rightarrow> (router_port \<times> Message) option" where
  "router_intTransition state = state"

definition router_extTransition ::
  "(router_port \<times> Message) option \<Rightarrow> Message option \<Rightarrow>
     py_error + (router_port \<times> Message) option" where
  "router_extTransition state inputs =
     (case inputs of
        None \<Rightarrow> Inr state
      | Some message \<Rightarrow>
          (case select_transport message of
             Inl e \<Rightarrow> Inl e
           | Inr transport \<Rightarrow>
               (if transport = SHARED_MEMORY then Inr (Some (shm_out, message))
                else if transport = UDP_MULTICAST then Inr (Some (multicast_out, message))
                else if transport = UDP_UNICAST then Inr (Some (unicast_out, message))
                else Inr (Some (tcp_out, message)))))"

definition shm_timeAdvance :: "Message option \<Rightarrow> pyfloat" where
  "shm_timeAdvance state = Infty"

definition shm_outputFnc :: "Message option \<Rightarrow> Message list" where
  "shm_outputFnc state = []"

definition shm_intTransition :: "Message option \<Rightarrow> Message option" where
  "shm_intTransition state = state"

definition shm_extTransition :: "Message option \<Rightarrow> Message option \<Rightarrow> Message option" where
  "shm_extTransition state inputs = (case inputs of None \<Rightarrow> state | Some message \<Rightarrow> Some message)"

text \<open>
  \<^verbatim>\<open>NetworkTransport\<close>: its state is the list of pending messages.  The configuration
  values of \<^verbatim>\<open>config.network\<close> are a record, and the sample of \<^verbatim>\<open>random.random()\<close> is the
  argument \<open>u\<close>.
\<close>

record NetworkConfig =
  lan_latency_us :: real
  wan_latency_us :: real
  lan_loss_rate :: real

definition get_latency :: "NetworkConfig \<Rightarrow> TransportType \<Rightarrow> real" where
  "get_latency config transport_type =
     (if transport_type = UDP_MULTICAST then lan_latency_us config / 1000000
      else if transport_type = UDP_UNICAST then lan_latency_us config / 1000000
      else wan_latency_us config / 1000000)"

definition should_drop :: "NetworkConfig \<Rightarrow> TransportType \<Rightarrow> real \<Rightarrow> bool" where
  "should_drop config transport_type u =
     (if transport_type = UDP_MULTICAST then u < lan_loss_rate config
      else if transport_type = UDP_UNICAST then u < lan_loss_rate config
      else False)"

definition net_timeAdvance :: "NetworkConfig \<Rightarrow> TransportType \<Rightarrow> Message list \<Rightarrow> pyfloat" where
  "net_timeAdvance config transport_type pending =
     (if pending \<noteq> [] then Num (get_latency config transport_type) else Infty)"

definition net_outputFnc :: "Message list \<Rightarrow> Message list" where
  "net_outputFnc pending = (if pending \<noteq> [] then [hd pending] else [])"

definition net_intTransition :: "Message list \<Rightarrow> Message list" where
  "net_intTransition pending = (if pending \<noteq> [] then tl pending else pending)"

definition net_extTransition ::
  "NetworkConfig \<Rightarrow> TransportType \<Rightarrow> Message list \<Rightarrow> Message option \<Rightarrow> real \<Rightarrow> Message list" where
  "net_extTransition config transport_type pending inputs u =
     (case inputs of
        None \<Rightarrow> pending
      | Some message \<Rightarrow>
          (if \<not> should_drop config transport_type u then pending @ [message] else pending))"

subsection \<open>The multiplexer\<close>

text \<open>
  Modelled from the spec: the simulation kernel that drives the coupled
  \<^verbatim>\<open>TransportMultiplexer\<close> (section 4.2; the source delegates it to the pypdevs library,
  which is not under src/).  An event on the external port \<^verbatim>\<open>data_in\<close> is routed along
  the coupling to the router, whose external transition is applied; an external
  transition emits nothing.  The next internal event is due after the least time advance
  of the five components (all taken as last active at the same instant); if that is
  infinite the multiplexer is passive and emits nothing.  At an internal event the
  imminent components emit their \<^verbatim>\<open>outputFnc\<close>, and what the four transports emit is
  routed to the external port \<^verbatim>\<open>data_out\<close>.
\<close>

record multiplexer =
  router :: "(router_port \<times> Message) option"
  shm_transport :: "Message option"
  multicast_transport :: "Message list"
  unicast_transport :: "Message list"
  tcp_transport :: "Message list"

definition new_multiplexer :: multiplexer where
  "new_multiplexer = \<lparr> router = None, shm_transport = None, multicast_transport = [],
                        unicast_transport = [], tcp_transport = [] \<rparr>"

definition mux_receive :: "multiplexer \<Rightarrow> Message \<Rightarrow> py_error + multiplexer" where
  "mux_receive mux message =
     (case router_extTransition (router mux) (Some message) of
        Inl e \<Rightarrow> Inl e
      | Inr state \<Rightarrow> Inr (mux\<lparr>router := state\<rparr>))"

fun fmin :: "pyfloat \<Rightarrow> pyfloat \<Rightarrow> pyfloat" where
  "fmin (Num x) (Num y) = Num (min x y)"
| "fmin (Num x) Infty = Num x"
| "fmin Infty b = b"
| "fmin NegInfty b = NegInfty"
| "fmin a NegInfty = NegInfty"

definition mux_timeAdvance :: "NetworkConfig \<Rightarrow> multiplexer \<Rightarrow> pyfloat" where
  "mux_timeAdvance config mux =
     fmin (router_timeAdvance (router mux))
       (fmin (shm_timeAdvance (shm_transport mux))
         (fmin (net_timeAdvance config UDP_MULTICAST (multicast_transport mux))
           (fmin (net_timeAdvance config UDP_UNICAST (unicast_transport mux))
                 (net_timeAdvance config TCP (tcp_transport mux)))))"

definition mux_data_out :: "NetworkConfig \<Rightarrow> multiplexer \<Rightarrow> Message list" where
  "mux_data_out config mux =
     (let t = mux_timeAdvance config mux
      in if t = Infty then []
         else
           (if shm_timeAdvance (shm_transport mux) = t
              then shm_outputFnc (shm_transport mux) else []) @
           (if net_timeAdvance config UDP_MULTICAST (multicast_transport mux) = t
              then net_outputFnc (multicast_transport mux) else []) @
           (if net_timeAdvance config UDP_UNICAST (unicast_transport mux) = t
              then net_outputFnc (unicast_transport mux) else []) @
           (if net_timeAdvance config TCP (tcp_transport mux) = t
              then net_outputFnc (tcp_transport mux) else []))"

subsection \<open>Scenario: a local message and two remote ones\<close>

definition local_message :: Message where
  "local_message = \<lparr> source_node = ''n1'', destination_node = ''n1'', msg_type = DATA,
                      qos_profile = Some (default_qos\<lparr>reliability := BEST_EFFORT\<rparr>) \<rparr>"

definition reliable_message :: Message where
  "reliable_message = \<lparr> source_node = ''n1'', destination_node = ''n2'', msg_type = DATA,
                         qos_profile = Some default_qos \<rparr>"

definition best_effort_message :: Message where
  "best_effort_message = \<lparr> source_node = ''n1'', destination_node = ''n2'', msg_type = DATA,
                            qos_profile = None \<rparr>"

text \<open>The multiplexer after the router has taken a local message into its state.\<close>

definition holding_local_message :: multiplexer where
  "holding_local_message = new_multiplexer\<lparr>router := Some (shm_out, local_message)\<rparr>"

section \<open>Properties of the checker\<close>

subsection \<open>The double product\<close>

lemma exponent_le: assumes "0 < y" shows "2 powi (exponent y) \<le> y"
proof (cases "1 \<le> y")
  case True
  then have m: "0 < \<lfloor>y\<rfloor>" by simp
  from bitlen_bounds [OF m] have "2 ^ nat (bitlen \<lfloor>y\<rfloor> - 1) \<le> \<lfloor>y\<rfloor>" by simp
  then have "(2::real) ^ nat (bitlen \<lfloor>y\<rfloor> - 1) \<le> of_int \<lfloor>y\<rfloor>"
    by (metis of_int_le_iff of_int_numeral of_int_power)
  also have "\<dots> \<le> y" by simp
  finally have "(2::real) ^ nat (bitlen \<lfloor>y\<rfloor> - 1) \<le> y" .
  moreover have "0 \<le> bitlen \<lfloor>y\<rfloor> - 1" using m by (simp add: bitlen_alt_def)
  ultimately show ?thesis using True by (simp add: exponent_def power_int_def)
next
  case False
  let ?z = "1 / y"
  let ?m = "\<lceil>?z\<rceil> - 1"
  from False assms have z: "1 < ?z" by simp
  then have m: "0 < ?m" by linarith
  from bitlen_bounds [OF m] have "?m < 2 ^ nat (bitlen ?m)" by simp
  then have "\<lceil>?z\<rceil> \<le> 2 ^ nat (bitlen ?m)" by linarith
  then have "of_int \<lceil>?z\<rceil> \<le> (2::real) ^ nat (bitlen ?m)"
    by (metis of_int_le_iff of_int_numeral of_int_power)
  moreover have "?z \<le> of_int \<lceil>?z\<rceil>" by simp
  ultimately have "?z \<le> 2 ^ nat (bitlen ?m)" by linarith
  then have "1 / 2 ^ nat (bitlen ?m) \<le> y"
    using assms by (simp add: field_simps)
  moreover have k: "0 < bitlen ?m" using m by (simp add: bitlen_alt_def)
  ultimately show ?thesis using False k
    by (simp add: exponent_def power_int_def field_simps)
qed

lemma round_half_even_err: "\<bar>of_int (round_half_even q) - q\<bar> \<le> 1 / 2"
  unfolding round_half_even_def Let_def by (auto; linarith)

lemma round_double_ulp:
  assumes "x \<noteq> 0" and "round_double x = Num r"
  shows "\<bar>r - x\<bar> \<le> 2 powi (max (exponent \<bar>x\<bar>) (- 1022) - 52) / 2"
proof -
  define u :: real where "u = 2 powi (max (exponent \<bar>x\<bar>) (- 1022) - 52)"
  define n where "n = round_half_even (x / u)"
  have u: "0 < u" by (simp add: u_def)
  from assms have r: "r = of_int n * u"
    by (simp add: round_double_def Let_def u_def n_def split: if_splits)
  have "r - x = (of_int n - x / u) * u" using u by (simp add: r field_simps)
  then have "\<bar>r - x\<bar> = \<bar>of_int n - x / u\<bar> * u" using u by (simp add: abs_mult)
  also have "\<dots> \<le> (1 / 2) * u"
    using round_half_even_err [of "x / u"] u unfolding n_def
    by (intro mult_right_mono) simp_all
  finally show ?thesis by (simp add: u_def)
qed

lemma round_double_accuracy:
  assumes "round_double x = Num r"
  shows "\<bar>r - x\<bar> \<le> \<bar>x\<bar> / 2 ^ 53 + 1 / 2 ^ 1075"
proof (cases "x = 0")
  case True
  with assms show ?thesis by (simp add: round_double_def)
next
  case False
  note ulp = round_double_ulp [OF False assms]
  show ?thesis
  proof (cases "- 1022 \<le> exponent \<bar>x\<bar>")
    case True
    then have "max (exponent \<bar>x\<bar>) (- 1022) - 52 = exponent \<bar>x\<bar> - 52" by simp
    moreover have "(2::real) powi (exponent \<bar>x\<bar> - 52) = 2 powi (exponent \<bar>x\<bar>) / 2 ^ 52"
      by (simp add: power_int_diff)
    moreover have "2 powi (exponent \<bar>x\<bar>) \<le> \<bar>x\<bar>" using False by (intro exponent_le) simp
    ultimately have "2 powi (max (exponent \<bar>x\<bar>) (- 1022) - 52) / 2 \<le> \<bar>x\<bar> / 2 ^ 52 / 2"
      by (simp add: divide_right_mono)
    also have "\<dots> = \<bar>x\<bar> / 2 ^ 53" by simp
    finally show ?thesis using ulp by simp
  next
    case F: False
    then have "max (exponent \<bar>x\<bar>) (- 1022) - 52 = - 1074" by simp
    then have "(2::real) powi (max (exponent \<bar>x\<bar>) (- 1022) - 52) / 2 = 1 / 2 ^ 1074 / 2"
      by (simp add: power_int_minus_divide)
    also have "\<dots> = 1 / 2 ^ 1075" by simp
    finally have "\<bar>r - x\<bar> \<le> 1 / 2 ^ 1075" using ulp by (rule ord_le_eq_trans [rotated])
    moreover have "0 \<le> \<bar>x\<bar> / 2 ^ 53" by simp
    ultimately show ?thesis by (rule add_increasing [rotated])
  qed
qed

lemma round_double_finite:
  assumes "\<bar>x\<bar> < 2 powi 1024 - 2 powi 970"
  shows "\<exists>r. round_double x = Num r"
proof (cases "x = 0")
  case True
  then show ?thesis by (simp add: round_double_def)
next
  case False
  define u :: real where "u = 2 powi (max (exponent \<bar>x\<bar>) (- 1022) - 52)"
  define n where "n = round_half_even (x / u)"
  have u: "0 < u" by (simp add: u_def)
  have "(2::real) powi (exponent \<bar>x\<bar>) \<le> \<bar>x\<bar>" using False by (intro exponent_le) simp
  also have "\<dots> < 2 powi 1024" using assms
    by (smt (verit) zero_less_power_int)
  finally have "exponent \<bar>x\<bar> < 1024"
    by (intro power_int_le_imp_less_exp [of "2::real"]) simp_all
  then have "max (exponent \<bar>x\<bar>) (- 1022) - 52 \<le> 971" by simp
  then have "u \<le> 2 powi 971" unfolding u_def by (intro power_int_increasing) simp_all
  moreover have "\<bar>of_int n * u - x\<bar> \<le> u / 2"
  proof -
    have "of_int n * u - x = (of_int n - x / u) * u" using u by (simp add: field_simps)
    then have "\<bar>of_int n * u - x\<bar> = \<bar>of_int n - x / u\<bar> * u" using u by (simp add: abs_mult)
    also have "\<dots> \<le> (1 / 2) * u"
      using round_half_even_err [of "x / u"] u unfolding n_def
      by (intro mult_right_mono) simp_all
    finally show ?thesis by simp
  qed
  moreover have "(2::real) powi 971 / 2 = 2 powi 970"
    using power_int_diff [of "2::real" 971 1] by simp
  ultimately have "\<bar>of_int n * u\<bar> < 2 powi 1024" using assms by linarith
  then show ?thesis using False
    by (simp add: round_double_def Let_def u_def n_def)
qed

lemma lit_0_9_near: "\<bar>lit_0_9 - 9 / 10\<bar> \<le> 1 / 2 ^ 55" "0 < lit_0_9" "lit_0_9 \<le> 1 - 1 / 2 ^ 54"
  by (simp_all add: lit_0_9_def)

lemma fmul_lit_0_9:
  assumes "\<bar>b\<bar> < 2 ^ 1024"
  shows "\<exists>t. fmul (Num b) lit_0_9 = Num t \<and> \<bar>t - b * (9 / 10)\<bar> \<le> \<bar>b\<bar> / 2 ^ 52 + 1 / 2 ^ 1075"
proof -
  have P: "(2::real) powi 970 = 2 powi 1024 / 2 ^ 54"
    using power_int_diff [of "2::real" 1024 54] by simp
  have "\<bar>b * lit_0_9\<bar> = \<bar>b\<bar> * lit_0_9" using lit_0_9_near(2) by (simp add: abs_mult)
  also have "\<dots> \<le> \<bar>b\<bar> * (1 - 1 / 2 ^ 54)"
    using lit_0_9_near(3) by (intro mult_left_mono) simp_all
  also have "\<dots> < 2 powi 1024 * (1 - 1 / 2 ^ 54)"
    using assms by (intro mult_strict_right_mono) simp_all
  also have "\<dots> = 2 powi 1024 - 2 powi 970" unfolding P by (simp add: algebra_simps)
  finally obtain t where t: "round_double (b * lit_0_9) = Num t"
    using round_double_finite by blast
  from round_double_accuracy [OF t]
  have 1: "\<bar>t - b * lit_0_9\<bar> \<le> \<bar>b * lit_0_9\<bar> / 2 ^ 53 + 1 / 2 ^ 1075" .
  have "\<bar>b * lit_0_9\<bar> \<le> \<bar>b\<bar>"
    using lit_0_9_near(2,3) by (simp add: abs_mult mult_left_le)
  then have 2: "\<bar>b * lit_0_9\<bar> / 2 ^ 53 \<le> \<bar>b\<bar> / 2 ^ 53" by (simp add: divide_right_mono)
  have "b * lit_0_9 - b * (9 / 10) = b * (lit_0_9 - 9 / 10)" by (simp add: algebra_simps)
  then have "\<bar>b * lit_0_9 - b * (9 / 10)\<bar> = \<bar>b\<bar> * \<bar>lit_0_9 - 9 / 10\<bar>"
    by (simp only: abs_mult)
  also have "\<dots> \<le> \<bar>b\<bar> * (1 / 2 ^ 55)"
    using lit_0_9_near(1) by (intro mult_left_mono) simp_all
  finally have 3: "\<bar>b * lit_0_9 - b * (9 / 10)\<bar> \<le> \<bar>b\<bar> / 2 ^ 55" by simp
  have 4: "\<bar>b\<bar> / 2 ^ 53 + \<bar>b\<bar> / 2 ^ 55 \<le> \<bar>b\<bar> / 2 ^ 52" by simp
  define E :: real where "E = 1 / 2 ^ 1075"
  from 1 2 3 4 have "\<bar>t - b * (9 / 10)\<bar> \<le> \<bar>b\<bar> / 2 ^ 52 + E"
    unfolding E_def [symmetric] by linarith
  with t show ?thesis by (simp add: E_def)
qed


lemma ten_times_lit_0_9: "fmul (Num 10) lit_0_9 = Num 9"
  by code_simp

lemma three_and_a_half_times_lit_0_9:
  "fmul (Num (7 / 2)) lit_0_9 = Num (7093169413108531 / 2251799813685248)"
  by code_simp

subsection \<open>The lifespan dimension\<close>

text \<open>
  C2 (as stated, refuted).  An offered lifespan of 9.5 s is strictly less than a requested
  lifespan of 10 s, yet \<^verbatim>\<open>_check_lifespan\<close> passes: the double product of 10.0 and 0.9
  is 9.0.
\<close>

theorem lifespan_below_requested_passes:
  "flt (lifespan (default_qos\<lparr>lifespan := Num (19 / 2)\<rparr>))
       (lifespan (default_qos\<lparr>lifespan := Num 10\<rparr>)) \<and>
   check_lifespan (default_qos\<lparr>lifespan := Num (19 / 2)\<rparr>) (default_qos\<lparr>lifespan := Num 10\<rparr>)"
  by (simp add: check_lifespan_def default_qos_def ten_times_lit_0_9 del: fmul.simps)

text \<open>
  C2 (amended).  \<^verbatim>\<open>_check_lifespan\<close> passes if and only if the offered lifespan is at
  least the double product \<open>t\<close> of the requested lifespan and 0.9 (a 10 percent
  tolerance); for a finite requested lifespan \<open>b\<close> this threshold is finite and within
  \<open>\<bar>b\<bar> / 2 ^ 52 + 1 / 2 ^ 1075\<close> of \<open>0.9 * b\<close>.  An unbounded offer always passes, and a
  bounded offer never satisfies an unbounded request.
\<close>

theorem check_lifespan_tolerance:
  "(lifespan pub = Num a \<and> lifespan sub = Num b \<and> \<bar>b\<bar> < 2 ^ 1024 \<longrightarrow>
      (\<exists>t. fmul (Num b) lit_0_9 = Num t \<and>
           \<bar>t - b * (9 / 10)\<bar> \<le> \<bar>b\<bar> / 2 ^ 52 + 1 / 2 ^ 1075 \<and>
           check_lifespan pub sub = (t \<le> a))) \<and>
   (lifespan pub = Infty \<longrightarrow> check_lifespan pub sub) \<and>
   (lifespan pub = Num a \<and> lifespan sub = Infty \<longrightarrow> \<not> check_lifespan pub sub)"
proof (intro conjI impI)
  assume h: "lifespan pub = Num a \<and> lifespan sub = Num b \<and> \<bar>b\<bar> < 2 ^ 1024"
  then obtain t where t: "fmul (Num b) lit_0_9 = Num t"
      and e: "\<bar>t - b * (9 / 10)\<bar> \<le> \<bar>b\<bar> / 2 ^ 52 + 1 / 2 ^ 1075"
    using fmul_lit_0_9 [of b] by blast
  from h t have "check_lifespan pub sub = (t \<le> a)" by (simp add: check_lifespan_def)
  with t e show "\<exists>t. fmul (Num b) lit_0_9 = Num t \<and>
           \<bar>t - b * (9 / 10)\<bar> \<le> \<bar>b\<bar> / 2 ^ 52 + 1 / 2 ^ 1075 \<and>
           check_lifespan pub sub = (t \<le> a)" by blast
next
  assume "lifespan pub = Infty"
  then show "check_lifespan pub sub"
    by (cases "fmul (lifespan sub) lit_0_9") (simp_all add: check_lifespan_def)
next
  assume "lifespan pub = Num a \<and> lifespan sub = Infty"
  then show "\<not> check_lifespan pub sub" by (simp add: check_lifespan_def)
qed

theorem check_lifespan_tolerance_witness:
  "lifespan (default_qos\<lparr>lifespan := Num (7093169413108531 / 2251799813685248)\<rparr>)
     = Num (7093169413108531 / 2251799813685248) \<and>
   lifespan (default_qos\<lparr>lifespan := Num (7 / 2)\<rparr>) = Num (7 / 2) \<and>
   \<bar>7 / 2 :: real\<bar> < 2 ^ 1024 \<and>
   fmul (Num (7 / 2)) lit_0_9 = Num (7093169413108531 / 2251799813685248) \<and>
   (\<exists>t. fmul (Num (7 / 2)) lit_0_9 = Num t \<and>
        \<bar>t - 7 / 2 * (9 / 10)\<bar> \<le> \<bar>7 / 2\<bar> / 2 ^ 52 + 1 / 2 ^ 1075 \<and>
        check_lifespan (default_qos\<lparr>lifespan := Num (7093169413108531 / 2251799813685248)\<rparr>)
                       (default_qos\<lparr>lifespan := Num (7 / 2)\<rparr>) = (t \<le> 7093169413108531 / 2251799813685248)) \<and>
   check_lifespan (default_qos\<lparr>lifespan := Num (7093169413108531 / 2251799813685248)\<rparr>)
                  (default_qos\<lparr>lifespan := Num (7 / 2)\<rparr>)"
proof -
  let ?P = "default_qos\<lparr>lifespan := Num (7093169413108531 / 2251799813685248)\<rparr>"
  let ?S = "default_qos\<lparr>lifespan := Num (7 / 2)\<rparr>"
  have a: "lifespan ?P = Num (7093169413108531 / 2251799813685248)"
    and b: "lifespan ?S = Num (7 / 2)" by simp_all
  have c: "\<bar>7 / 2 :: real\<bar> < 2 ^ 1024" by simp
  have d: "fmul (Num (7 / 2)) lit_0_9 = Num (7093169413108531 / 2251799813685248)"
    by (rule three_and_a_half_times_lit_0_9)
  from check_lifespan_tolerance [of ?P "7093169413108531 / 2251799813685248" ?S "7 / 2"] a b c
  have e: "\<exists>t. fmul (Num (7 / 2)) lit_0_9 = Num t \<and>
        \<bar>t - 7 / 2 * (9 / 10)\<bar> \<le> \<bar>7 / 2\<bar> / 2 ^ 52 + 1 / 2 ^ 1075 \<and>
        check_lifespan ?P ?S = (t \<le> 7093169413108531 / 2251799813685248)"
    by blast
  with d have f: "check_lifespan ?P ?S" by auto
  from a b c d e f show ?thesis by blast
qed

subsection \<open>The full check\<close>

lemma check_liveliness_raises: "check_liveliness pub sub = Inl AttributeError"
  by (simp add: check_liveliness_def policy_liveliness_member_def)

lemma check_compatibility_raises: "check_compatibility pub sub = Inl AttributeError"
  by (simp add: check_compatibility_def check_liveliness_raises)

text \<open>
  C8 (the code at the failing input).  The default profile is well-formed, and checking
  it against itself raises AttributeError instead of returning a result:
  \<^verbatim>\<open>_check_liveliness\<close> names \<^verbatim>\<open>QoSLivelinessPolicy.MANUAL_BY_PARTICIPANT\<close>, and the enum
  that compatibility.py takes from qos/policies.py has no such member.  The same holds
  for every pair of profiles.
\<close>

theorem check_self_raises:
  "well_formed default_qos \<and>
   check_compatibility default_qos default_qos = Inl AttributeError"
  by (simp add: check_compatibility_raises well_formed_def default_qos_def)

section \<open>Properties of the domain participant\<close>

lemmas scenario_defs = new_participant_def create_writer_def create_reader_def append_at_def
  write_data_def find_writer_def create_discovery_message_def qos_match_def add_match_def
  check_endpoint_matching_def process_discovery_message_def remove_expired_def
  cleanup_expired_participants_def matched_set_def default_qos_def timeAdvance_def
  intTransition_def writer_side_def reader_side_def after_discovery_def Let_def

subsection \<open>Endpoint matching\<close>

lemma not_flt_iff_fle: "(\<not> flt a b) = fle b a"
  by (cases a; cases b) auto

lemma qos_match_rules:
  "qos_match w r =
     (\<not> (reliability r = RELIABLE \<and> reliability w = BEST_EFFORT) \<and>
      durability_levels (durability r) \<le> durability_levels (durability w) \<and>
      fle (deadline w) (deadline r) \<and>
      (partition_names w = [] \<or> partition_names r = [] \<or>
       set (partition_names w) \<inter> set (partition_names r) \<noteq> {}))"
  unfolding qos_match_def using not_flt_iff_fle [of "deadline r" "deadline w"]
  by auto

lemma matched_set_add_match:
  "matched_set (s\<lparr>matched_endpoints := add_match (matched_endpoints s) l r\<rparr>) g =
     (if g = l then insert r (matched_set s g) else matched_set s g)"
  by (simp add: matched_set_def add_match_def update_conv' split: option.splits)

lemma matched_set_fold_readers:
  "matched_set (foldl (\<lambda>s reader. if P reader
       then s\<lparr>matched_endpoints := add_match (matched_endpoints s) (r_guid reader) e\<rparr>
       else s) s rs) g =
   matched_set s g \<union> (if \<exists>r \<in> set rs. r_guid r = g \<and> P r then {e} else {})"
proof (induction rs arbitrary: s)
  case Nil
  then show ?case by simp
next
  case (Cons r rs)
  show ?case
    by (simp add: Cons.IH matched_set_add_match) auto
qed

lemma matched_set_fold_writers:
  "matched_set (foldl (\<lambda>s writer. if P writer
       then s\<lparr>matched_endpoints := add_match (matched_endpoints s) (w_guid writer) e\<rparr>
       else s) s ws) g =
   matched_set s g \<union> (if \<exists>w \<in> set ws. w_guid w = g \<and> P w then {e} else {})"
proof (induction ws arbitrary: s)
  case Nil
  then show ?case by simp
next
  case (Cons w ws)
  show ?case
    by (simp add: Cons.IH matched_set_add_match) auto
qed

text \<open>
  C1 (as stated, refuted).  A remote writer with EXCLUSIVE ownership and a local reader
  with SHARED ownership on the same topic are entered into the Match Table, although
  the checker's ownership rule rejects the pair and the full compatibility check does
  not report it compatible (it raises).
\<close>

theorem match_without_full_check:
  "''w1'' \<in> matched_set (after_discovery (default_qos\<lparr>ownership := EXCLUSIVE\<rparr>) default_qos) ''r1'' \<and>
   \<not> check_ownership (default_qos\<lparr>ownership := EXCLUSIVE\<rparr>) default_qos \<and>
   check_compatibility (default_qos\<lparr>ownership := EXCLUSIVE\<rparr>) default_qos = Inl AttributeError"
  by (simp add: scenario_defs check_ownership_def check_compatibility_raises)

text \<open>
  C1 (amended).  When a remote endpoint is processed, its guid is in the matched set of
  a guid \<open>g\<close> afterwards if and only if it was there before or \<open>g\<close> is the guid of a local
  endpoint of the opposite kind on the same topic for which the participant's own
  \<^verbatim>\<open>_qos_match\<close> holds (writer profile first).  \<^verbatim>\<open>_qos_match\<close> decides by the checker's
  reliability, durability and deadline rules and by the literal intersection of the two
  partition lists when both are non-empty; lifespan, liveliness, history and ownership
  are not consulted.
\<close>

theorem endpoint_matching_rule:
  "(ep_kind ep = ''writer'' \<longrightarrow>
      (ep_guid ep \<in> matched_set (check_endpoint_matching s ep) g) =
      (ep_guid ep \<in> matched_set s g \<or>
       (\<exists>r \<in> set (readers_on_topic s (ep_topic ep)).
          r_guid r = g \<and> qos_match (ep_qos ep) (r_qos r)))) \<and>
   (ep_kind ep = ''reader'' \<longrightarrow>
      (ep_guid ep \<in> matched_set (check_endpoint_matching s ep) g) =
      (ep_guid ep \<in> matched_set s g \<or>
       (\<exists>w \<in> set (writers_on_topic s (ep_topic ep)).
          w_guid w = g \<and> qos_match (w_qos w) (ep_qos ep)))) \<and>
   (\<forall>w r. qos_match w r =
     (\<not> (reliability r = RELIABLE \<and> reliability w = BEST_EFFORT) \<and>
      durability_levels (durability r) \<le> durability_levels (durability w) \<and>
      fle (deadline w) (deadline r) \<and>
      (partition_names w = [] \<or> partition_names r = [] \<or>
       set (partition_names w) \<inter> set (partition_names r) \<noteq> {})))"
proof (intro conjI impI allI)
  assume k: "ep_kind ep = ''writer''"
  show "(ep_guid ep \<in> matched_set (check_endpoint_matching s ep) g) =
      (ep_guid ep \<in> matched_set s g \<or>
       (\<exists>r \<in> set (readers_on_topic s (ep_topic ep)).
          r_guid r = g \<and> qos_match (ep_qos ep) (r_qos r)))"
    using k
    by (cases "map_of (local_readers s) (ep_topic ep)")
       (auto simp add: check_endpoint_matching_def readers_on_topic_def matched_set_fold_readers)
next
  assume k: "ep_kind ep = ''reader''"
  show "(ep_guid ep \<in> matched_set (check_endpoint_matching s ep) g) =
      (ep_guid ep \<in> matched_set s g \<or>
       (\<exists>w \<in> set (writers_on_topic s (ep_topic ep)).
          w_guid w = g \<and> qos_match (w_qos w) (ep_qos ep)))"
    using k
    by (cases "map_of (local_writers s) (ep_topic ep)")
       (auto simp add: check_endpoint_matching_def writers_on_topic_def matched_set_fold_writers)
next
  fix w r
  show "qos_match w r =
     (\<not> (reliability r = RELIABLE \<and> reliability w = BEST_EFFORT) \<and>
      durability_levels (durability r) \<le> durability_levels (durability w) \<and>
      fle (deadline w) (deadline r) \<and>
      (partition_names w = [] \<or> partition_names r = [] \<or>
       set (partition_names w) \<inter> set (partition_names r) \<noteq> {}))"
    by (rule qos_match_rules)
qed

theorem endpoint_matching_rule_witness:
  "ep_kind (hd (dm_endpoints (create_discovery_message (writer_side default_qos) 0))) = ''writer'' \<and>
   ep_guid (hd (dm_endpoints (create_discovery_message (writer_side default_qos) 0))) = ''w1'' \<and>
   ''w1'' \<notin> matched_set (reader_side default_qos) ''r1'' \<and>
   ''w1'' \<in> matched_set
      (check_endpoint_matching (reader_side default_qos)
         (hd (dm_endpoints (create_discovery_message (writer_side default_qos) 0)))) ''r1'' \<and>
   ''w1'' \<notin> matched_set
      (check_endpoint_matching (reader_side default_qos)
         (hd (dm_endpoints (create_discovery_message (writer_side default_qos) 0)))) ''r2''"
proof -
  let ?ep = "hd (dm_endpoints (create_discovery_message (writer_side default_qos) 0))"
  have k: "ep_kind ?ep = ''writer''" and g: "ep_guid ?ep = ''w1''"
    by (simp_all add: scenario_defs)
  have n: "''w1'' \<notin> matched_set (reader_side default_qos) ''r1''"
      and n2: "''w1'' \<notin> matched_set (reader_side default_qos) ''r2''"
    by (simp_all add: scenario_defs)
  have r: "\<exists>r \<in> set (readers_on_topic (reader_side default_qos) (ep_topic ?ep)).
             r_guid r = ''r1'' \<and> qos_match (ep_qos ?ep) (r_qos r)"
    by (simp add: scenario_defs readers_on_topic_def)
  have r2: "\<not> (\<exists>r \<in> set (readers_on_topic (reader_side default_qos) (ep_topic ?ep)).
             r_guid r = ''r2'' \<and> qos_match (ep_qos ?ep) (r_qos r))"
    by (simp add: scenario_defs readers_on_topic_def)
  from endpoint_matching_rule [of ?ep "reader_side default_qos" "''r1''"] k g r
  have a: "''w1'' \<in> matched_set (check_endpoint_matching (reader_side default_qos) ?ep) ''r1''"
    by simp
  from endpoint_matching_rule [of ?ep "reader_side default_qos" "''r2''"] k g r2 n2
  have b: "''w1'' \<notin> matched_set (check_endpoint_matching (reader_side default_qos) ?ep) ''r2''"
    by simp
  from k g n a b show ?thesis by simp
qed

subsection \<open>Publishing\<close>

text \<open>
  C6 (as stated, refuted).  A writer without an entry in the Match Table publishes:
  nothing is enqueued and False is returned, but the writer's sequence-number counter
  has moved from 0 to 1, so the state has changed.
\<close>

theorem write_without_match_increments:
  "write_data (writer_side default_qos) ''w1'' ''x'' 0 =
     Inr (False, (writer_side default_qos)\<lparr>sequence_numbers := [(''w1'', 1)]\<rparr>) \<and>
   map_of (matched_endpoints (writer_side default_qos)) ''w1'' = None \<and>
   (writer_side default_qos)\<lparr>sequence_numbers := [(''w1'', 1)]\<rparr> \<noteq> writer_side default_qos"
  by (simp add: scenario_defs)

text \<open>
  C6 (amended).  If the guid names no local writer, the publish call returns False and
  leaves the participant unchanged.  Otherwise the writer's counter \<open>n\<close> becomes \<open>n + 1\<close>
  in every case, so the numbers handed out are strictly increasing per writer; the
  message carrying \<open>n\<close> is appended to the pending queue, and True returned, exactly when
  the writer's guid has an entry in the Match Table, and with no entry nothing is
  enqueued and False is returned.  Nothing else of the participant changes.
\<close>

theorem write_data_behaviour:
  "(find_writer (local_writers s) g = None \<longrightarrow> write_data s g d now = Inr (False, s)) \<and>
   (\<forall>w n. find_writer (local_writers s) g = Some w \<and> map_of (sequence_numbers s) g = Some n \<longrightarrow>
      (\<exists>b s'. write_data s g d now = Inr (b, s') \<and>
         b = (map_of (matched_endpoints s) g \<noteq> None) \<and>
         map_of (sequence_numbers s') g = Some (n + 1) \<and>
         s' = s\<lparr>sequence_numbers := AList.update g (n + 1) (sequence_numbers s),
                 pending_messages :=
                   (if b then pending_messages s @
                      [\<lparr> msg_writer_guid = g, msg_sequence_number = n,
                         msg_topic = w_topic_name w, msg_data = d, msg_timestamp = now \<rparr>]
                    else pending_messages s)\<rparr>))"
  by (auto simp add: write_data_def Let_def update_conv')

theorem write_data_behaviour_witness:
  "find_writer (local_writers (writer_side default_qos)) ''w1'' \<noteq> None \<and>
   map_of (sequence_numbers (writer_side default_qos)) ''w1'' = Some 0 \<and>
   find_writer (local_writers (writer_side default_qos)) ''r9'' = None \<and>
   write_data (writer_side default_qos) ''r9'' ''x'' 0 = Inr (False, writer_side default_qos) \<and>
   (\<exists>b s'. write_data (writer_side default_qos) ''w1'' ''x'' 0 = Inr (b, s') \<and>
       map_of (sequence_numbers s') ''w1'' = Some 1)"
proof -
  have a: "find_writer (local_writers (writer_side default_qos)) ''w1'' =
     Some \<lparr> w_guid = ''w1'', w_qos = default_qos, w_topic_name = ''/t'',
            w_type_name = ''T'', w_partition = [] \<rparr>"
    by (simp add: scenario_defs)
  have b: "map_of (sequence_numbers (writer_side default_qos)) ''w1'' = Some 0"
    by (simp add: scenario_defs)
  have c: "find_writer (local_writers (writer_side default_qos)) ''r9'' = None"
    by (simp add: scenario_defs)
  from write_data_behaviour [of "writer_side default_qos" "''r9''" "''x''" 0] c
  have d: "write_data (writer_side default_qos) ''r9'' ''x'' 0 = Inr (False, writer_side default_qos)"
    by blast
  from write_data_behaviour [of "writer_side default_qos" "''w1''" "''x''" 0] a b
  have e: "\<exists>b s'. write_data (writer_side default_qos) ''w1'' ''x'' 0 = Inr (b, s') \<and>
       map_of (sequence_numbers s') ''w1'' = Some 1"
    by fastforce
  from a b c d e show ?thesis by simp
qed

subsection \<open>Time advance\<close>

text \<open>
  C9 (as stated, refuted).  On one and the same participant state (active, last
  discovery and heartbeat at time 0) \<^verbatim>\<open>timeAdvance\<close> returns 0.05 when the clock reads
  0.05 and 0.001 when it reads 0.5, and the second evaluation has changed the state.
\<close>

theorem timeAdvance_reads_clock:
  "fst (timeAdvance (intTransition (new_participant ''A'' 0 1 1) 0) (1 / 20)) = Num (1 / 20) \<and>
   fst (timeAdvance (intTransition (new_participant ''A'' 0 1 1) 0) (1 / 2)) = Num (1 / 1000) \<and>
   snd (timeAdvance (intTransition (new_participant ''A'' 0 1 1) 0) (1 / 2)) \<noteq>
     intTransition (new_participant ''A'' 0 1 1) 0"
  by (simp add: scenario_defs)

text \<open>
  C9 (amended).  The participant's time advance is a function of its state and of the
  clock reading.  In every phase but "active" its value is the same for every clock
  reading and the evaluation leaves the state as it is; in phase "active" the value
  depends on the clock reading and the evaluation may assign the phase (to
  "discovering", "heartbeat" or "sending_data"), and nothing but the phase.
\<close>

theorem timeAdvance_state_and_clock:
  "(if phase s = ''active''
    then snd (timeAdvance s t) = s\<lparr>phase := phase (snd (timeAdvance s t))\<rparr> \<and>
         phase (snd (timeAdvance s t)) \<in>
           {''active'', ''discovering'', ''heartbeat'', ''sending_data''}
    else timeAdvance s t = timeAdvance s t' \<and> snd (timeAdvance s t) = s)"
  by (simp add: timeAdvance_def Let_def)

subsection \<open>The lease-expiry sweep\<close>

text \<open>
  C4 (the code at the failing input).  B learns of A's writer \<open>w1\<close> at time 0 with a
  lease of 1 s and matches it with its reader \<open>r1\<close>.  The sweep at time 2 removes A from
  the discovered participants, but \<open>w1\<close> is still a discovered endpoint and still
  matched with \<open>r1\<close>: the endpoint descriptors that \<^verbatim>\<open>_create_discovery_message\<close> builds
  leave \<^verbatim>\<open>participant_guid\<close> at its default, the empty string.
\<close>

theorem lease_sweep_keeps_endpoints:
  "map fst (discovered_participants (after_discovery default_qos default_qos)) = [''A''] \<and>
   map fst (discovered_participants
     (cleanup_expired_participants (after_discovery default_qos default_qos) 2)) = [] \<and>
   map fst (discovered_endpoints
     (cleanup_expired_participants (after_discovery default_qos default_qos) 2)) = [''w1''] \<and>
   matched_set (cleanup_expired_participants (after_discovery default_qos default_qos) 2) ''r1''
     = {''w1''}"
  by (simp add: scenario_defs)

subsection \<open>The shape of the Match Table in reachable states\<close>

lemma set_update_subset: "set (AList.update k v al) \<subseteq> insert (k, v) (set al)"
  by (induction al) auto

lemma keys_update: "fst ` set (AList.update k v al) = insert k (fst ` set al)"
  by (induction al) auto

lemma keys_delete: "fst ` set (AList.delete k al) = fst ` set al - {k}"
  by (induction al) auto

lemma values_update_mono:
  "(\<And>xs. map_of d t = Some xs \<Longrightarrow> set xs \<subseteq> set v) \<Longrightarrow>
   (\<Union>p \<in> set d. set (snd p)) \<subseteq> (\<Union>p \<in> set (AList.update t v d). set (snd p))"
proof (induction d)
  case Nil
  then show ?case by simp
next
  case (Cons a d)
  show ?case
  proof (cases "fst a = t")
    case True
    with Cons.prems [of "snd a"] show ?thesis by (cases a) auto
  next
    case False
    with Cons.prems have "\<And>xs. map_of d t = Some xs \<Longrightarrow> set xs \<subseteq> set v"
      by (cases a) auto
    from Cons.IH [OF this] False show ?thesis by (cases a) auto
  qed
qed

lemma values_append_at:
  "(\<Union>p \<in> set d. set (snd p)) \<subseteq> (\<Union>p \<in> set (append_at d t x). set (snd p))"
  by (cases "map_of d t") (auto simp add: append_at_def intro!: values_update_mono [THEN subsetD])

lemma set_concat_snd: "set (concat (map snd d)) = (\<Union>p \<in> set d. set (snd p))"
  by auto

lemma writers_create_writer:
  "set (get_all_writers s) \<subseteq> set (get_all_writers (snd (create_writer s g t ty q)))"
  unfolding get_all_writers_def set_concat_snd
  using values_append_at [of "local_writers s" t]
  by (simp add: create_writer_def Let_def)

lemma readers_create_writer:
  "get_all_readers (snd (create_writer s g t ty q)) = get_all_readers s"
  by (simp add: get_all_readers_def create_writer_def Let_def)

lemma readers_create_reader:
  "set (get_all_readers s) \<subseteq> set (get_all_readers (snd (create_reader s g t ty q)))"
  unfolding get_all_readers_def set_concat_snd
  using values_append_at [of "local_readers s" t]
  by (simp add: create_reader_def Let_def)

lemma writers_create_reader:
  "get_all_writers (snd (create_reader s g t ty q)) = get_all_writers s"
  by (simp add: get_all_writers_def create_reader_def Let_def)

lemma local_guids_create_writer:
  "local_guids s \<subseteq> local_guids (snd (create_writer s g t ty q))"
  unfolding local_guids_def readers_create_writer
  using writers_create_writer [of s g t ty q] by blast

lemma local_guids_create_reader:
  "local_guids s \<subseteq> local_guids (snd (create_reader s g t ty q))"
  unfolding local_guids_def writers_create_reader
  using readers_create_reader [of s g t ty q] by blast

lemma match_table_inv_mono:
  assumes "match_table_inv s"
    and "matched_endpoints s' = matched_endpoints s"
    and "discovered_endpoints s' = discovered_endpoints s"
    and "local_guids s \<subseteq> local_guids s'"
  shows "match_table_inv s'"
  using assms unfolding match_table_inv_def by fastforce

lemma inv_create_writer: "match_table_inv s \<Longrightarrow> match_table_inv (snd (create_writer s g t ty q))"
  by (erule match_table_inv_mono)
     (simp_all add: local_guids_create_writer, simp_all add: create_writer_def Let_def)

lemma inv_create_reader: "match_table_inv s \<Longrightarrow> match_table_inv (snd (create_reader s g t ty q))"
  by (erule match_table_inv_mono)
     (simp_all add: local_guids_create_reader, simp_all add: create_reader_def Let_def)

lemma local_guids_cong:
  "local_writers s' = local_writers s \<Longrightarrow> local_readers s' = local_readers s \<Longrightarrow>
   local_guids s' = local_guids s"
  by (simp add: local_guids_def get_all_writers_def get_all_readers_def)

lemma match_table_inv_cong:
  assumes "match_table_inv s"
    and "matched_endpoints s' = matched_endpoints s"
    and "discovered_endpoints s' = discovered_endpoints s"
    and "local_writers s' = local_writers s"
    and "local_readers s' = local_readers s"
  shows "match_table_inv s'"
  using assms local_guids_cong [of s' s] unfolding match_table_inv_def by simp

lemma write_data_fields:
  "write_data s g d now = Inr (b, s') \<Longrightarrow>
   matched_endpoints s' = matched_endpoints s \<and> discovered_endpoints s' = discovered_endpoints s \<and>
   local_writers s' = local_writers s \<and> local_readers s' = local_readers s"
  by (auto simp add: write_data_def Let_def split: option.splits if_splits)

lemma inv_write_data:
  "match_table_inv s \<Longrightarrow> write_data s g d now = Inr (b, s') \<Longrightarrow> match_table_inv s'"
  using write_data_fields [of s g d now b s'] match_table_inv_cong [of s s'] by blast

lemma inv_timeAdvance: "match_table_inv s \<Longrightarrow> match_table_inv (snd (timeAdvance s now))"
  by (erule match_table_inv_cong) (simp_all add: timeAdvance_def Let_def)

lemma inv_intTransition: "match_table_inv s \<Longrightarrow> match_table_inv (intTransition s now)"
  by (erule match_table_inv_cong) (simp_all add: intTransition_def)

lemma match_table_invI:
  "(\<And>l S. (l, S) \<in> set (matched_endpoints s) \<Longrightarrow>
      l \<in> local_guids s \<and> S \<subseteq> fst ` set (discovered_endpoints s)) \<Longrightarrow> match_table_inv s"
  unfolding match_table_inv_def by blast

lemma match_table_invD:
  "match_table_inv s \<Longrightarrow> (l, S) \<in> set (matched_endpoints s) \<Longrightarrow>
     l \<in> local_guids s \<and> S \<subseteq> fst ` set (discovered_endpoints s)"
  unfolding match_table_inv_def by blast

lemma set_add_match:
  "(l', S') \<in> set (add_match m l e) \<Longrightarrow>
     (l', S') \<in> set m \<or> (l' = l \<and> (S' = {e} \<or> (\<exists>S. (l, S) \<in> set m \<and> S' = insert e S)))"
proof (cases "map_of m l")
  case None
  assume "(l', S') \<in> set (add_match m l e)"
  with None have "(l', S') \<in> insert (l, {e}) (set m)"
    using set_update_subset [of l "{e}" m] by (simp add: add_match_def) blast
  then show ?thesis by blast
next
  case (Some S)
  assume "(l', S') \<in> set (add_match m l e)"
  with Some have "(l', S') \<in> insert (l, insert e S) (set m)"
    using set_update_subset [of l "insert e S" m] by (simp add: add_match_def) blast
  moreover from Some have "(l, S) \<in> set m" by (rule map_of_SomeD)
  ultimately show ?thesis by blast
qed

lemma inv_add_match:
  assumes inv: "match_table_inv s" and l: "l \<in> local_guids s"
    and e: "e \<in> fst ` set (discovered_endpoints s)"
  shows "match_table_inv (s\<lparr>matched_endpoints := add_match (matched_endpoints s) l e\<rparr>)"
proof (rule match_table_invI)
  fix l' S'
  let ?s1 = "s\<lparr>matched_endpoints := add_match (matched_endpoints s) l e\<rparr>"
  assume "(l', S') \<in> set (matched_endpoints ?s1)"
  then have m: "(l', S') \<in> set (add_match (matched_endpoints s) l e)" by simp
  have lg: "local_guids ?s1 = local_guids s" by (rule local_guids_cong) simp_all
  have de: "discovered_endpoints ?s1 = discovered_endpoints s" by simp
  from set_add_match [OF m]
  have "l' \<in> local_guids s \<and> S' \<subseteq> fst ` set (discovered_endpoints s)"
  proof (elim disjE conjE exE)
    assume "(l', S') \<in> set (matched_endpoints s)"
    with inv show ?thesis by (rule match_table_invD)
  next
    assume "l' = l" "S' = {e}"
    with l e show ?thesis by simp
  next
    fix S assume a: "l' = l" "(l, S) \<in> set (matched_endpoints s)" "S' = insert e S"
    from match_table_invD [OF inv a(2)] a l e show ?thesis by simp
  qed
  then show "l' \<in> local_guids ?s1 \<and> S' \<subseteq> fst ` set (discovered_endpoints ?s1)"
    unfolding lg de .
qed

lemma foldl_invariant:
  "(\<And>s x. x \<in> set xs \<Longrightarrow> Q s \<Longrightarrow> Q (f s x)) \<Longrightarrow> Q s \<Longrightarrow> Q (foldl f s xs)"
  by (induction xs arbitrary: s) simp_all

lemma fold_readers_inv:
  assumes e: "e \<in> E"
    and rs: "r_guid ` set rs \<subseteq> L"
    and inv: "match_table_inv s \<and> fst ` set (discovered_endpoints s) = E \<and> local_guids s = L"
  shows "(\<lambda>s. match_table_inv s \<and> fst ` set (discovered_endpoints s) = E \<and> local_guids s = L)
     (foldl (\<lambda>s reader. if P reader
       then s\<lparr>matched_endpoints := add_match (matched_endpoints s) (r_guid reader) e\<rparr>
       else s) s rs)"
proof (rule foldl_invariant [where Q = "\<lambda>s. match_table_inv s \<and>
       fst ` set (discovered_endpoints s) = E \<and> local_guids s = L"])
  show "match_table_inv s \<and> fst ` set (discovered_endpoints s) = E \<and> local_guids s = L"
    by (rule inv)
next
  fix s :: DDSParticipant and x
  assume x: "x \<in> set rs"
    and q: "match_table_inv s \<and> fst ` set (discovered_endpoints s) = E \<and> local_guids s = L"
  let ?s1 = "s\<lparr>matched_endpoints := add_match (matched_endpoints s) (r_guid x) e\<rparr>"
  have "match_table_inv ?s1" using q e rs x by (intro inv_add_match) auto
  moreover have "local_guids ?s1 = L" using q local_guids_cong [of ?s1 s] by simp
  moreover have "fst ` set (discovered_endpoints ?s1) = E" using q by simp
  ultimately show "match_table_inv (if P x then ?s1 else s) \<and>
       fst ` set (discovered_endpoints (if P x then ?s1 else s)) = E \<and>
       local_guids (if P x then ?s1 else s) = L"
    using q by (cases "P x") simp_all
qed

lemma fold_writers_inv:
  assumes e: "e \<in> E"
    and ws: "w_guid ` set ws \<subseteq> L"
    and inv: "match_table_inv s \<and> fst ` set (discovered_endpoints s) = E \<and> local_guids s = L"
  shows "(\<lambda>s. match_table_inv s \<and> fst ` set (discovered_endpoints s) = E \<and> local_guids s = L)
     (foldl (\<lambda>s writer. if P writer
       then s\<lparr>matched_endpoints := add_match (matched_endpoints s) (w_guid writer) e\<rparr>
       else s) s ws)"
proof (rule foldl_invariant [where Q = "\<lambda>s. match_table_inv s \<and>
       fst ` set (discovered_endpoints s) = E \<and> local_guids s = L"])
  show "match_table_inv s \<and> fst ` set (discovered_endpoints s) = E \<and> local_guids s = L"
    by (rule inv)
next
  fix s :: DDSParticipant and x
  assume x: "x \<in> set ws"
    and q: "match_table_inv s \<and> fst ` set (discovered_endpoints s) = E \<and> local_guids s = L"
  let ?s1 = "s\<lparr>matched_endpoints := add_match (matched_endpoints s) (w_guid x) e\<rparr>"
  have "match_table_inv ?s1" using q e ws x by (intro inv_add_match) auto
  moreover have "local_guids ?s1 = L" using q local_guids_cong [of ?s1 s] by simp
  moreover have "fst ` set (discovered_endpoints ?s1) = E" using q by simp
  ultimately show "match_table_inv (if P x then ?s1 else s) \<and>
       fst ` set (discovered_endpoints (if P x then ?s1 else s)) = E \<and>
       local_guids (if P x then ?s1 else s) = L"
    using q by (cases "P x") simp_all
qed

lemma readers_on_topic_local:
  "map_of (local_readers s) t = Some rs \<Longrightarrow> r_guid ` set rs \<subseteq> local_guids s"
  by (drule map_of_SomeD) (force simp add: local_guids_def get_all_readers_def)

lemma writers_on_topic_local:
  "map_of (local_writers s) t = Some ws \<Longrightarrow> w_guid ` set ws \<subseteq> local_guids s"
  by (drule map_of_SomeD) (force simp add: local_guids_def get_all_writers_def)

lemma inv_check_endpoint_matching:
  assumes inv: "match_table_inv s" and e: "ep_guid ep \<in> fst ` set (discovered_endpoints s)"
  shows "match_table_inv (check_endpoint_matching s ep) \<and>
         fst ` set (discovered_endpoints (check_endpoint_matching s ep)) =
           fst ` set (discovered_endpoints s) \<and>
         local_guids (check_endpoint_matching s ep) = local_guids s"
proof (cases "ep_kind ep = ''writer''")
  case True
  show ?thesis
  proof (cases "map_of (local_readers s) (ep_topic ep)")
    case None
    with True assms show ?thesis by (simp add: check_endpoint_matching_def)
  next
    case (Some rs)
    have "check_endpoint_matching s ep = foldl (\<lambda>s reader.
        if qos_match (ep_qos ep) (r_qos reader)
        then s\<lparr>matched_endpoints := add_match (matched_endpoints s) (r_guid reader) (ep_guid ep)\<rparr>
        else s) s rs"
      using True Some by (simp add: check_endpoint_matching_def)
    with fold_readers_inv [OF e readers_on_topic_local [OF Some], of s] inv
    show ?thesis by simp
  qed
next
  case False
  show ?thesis
  proof (cases "ep_kind ep = ''reader''")
    case R: True
    show ?thesis
    proof (cases "map_of (local_writers s) (ep_topic ep)")
      case None
      with False R assms show ?thesis by (simp add: check_endpoint_matching_def)
    next
      case (Some ws)
      have "check_endpoint_matching s ep = foldl (\<lambda>s writer.
          if qos_match (w_qos writer) (ep_qos ep)
          then s\<lparr>matched_endpoints := add_match (matched_endpoints s) (w_guid writer) (ep_guid ep)\<rparr>
          else s) s ws"
        using False R Some by (simp add: check_endpoint_matching_def)
      with fold_writers_inv [OF e writers_on_topic_local [OF Some], of s] inv
      show ?thesis by simp
    qed
  next
    case F: False
    with False assms show ?thesis by (simp add: check_endpoint_matching_def)
  qed
qed


lemma inv_store_endpoint:
  assumes "match_table_inv s"
  shows "match_table_inv (s\<lparr>discovered_endpoints := AList.update k v (discovered_endpoints s)\<rparr>)"
proof (rule match_table_invI)
  fix l S
  let ?s1 = "s\<lparr>discovered_endpoints := AList.update k v (discovered_endpoints s)\<rparr>"
  assume "(l, S) \<in> set (matched_endpoints ?s1)"
  then have "(l, S) \<in> set (matched_endpoints s)" by simp
  from match_table_invD [OF assms this]
  have "l \<in> local_guids s" and "S \<subseteq> fst ` set (discovered_endpoints s)" by simp_all
  moreover have "local_guids ?s1 = local_guids s" by (rule local_guids_cong) simp_all
  moreover have "fst ` set (discovered_endpoints ?s1) = insert k (fst ` set (discovered_endpoints s))"
    by (simp add: keys_update)
  ultimately show "l \<in> local_guids ?s1 \<and> S \<subseteq> fst ` set (discovered_endpoints ?s1)"
    by blast
qed

lemma inv_process_discovery_message:
  assumes "match_table_inv s"
  shows "match_table_inv (process_discovery_message s msg now)"
proof (cases "dm_participant_guid msg = participant_guid s")
  case True
  with assms show ?thesis by (simp add: process_discovery_message_def)
next
  case False
  let ?s1 = "s\<lparr>discovered_participants :=
                 AList.update (dm_participant_guid msg)
                   \<lparr> pi_guid = dm_participant_guid msg, pi_domain_id = dm_domain_id msg,
                     pi_lease_expiry = now + dm_lease_duration msg, pi_vendor_id = ''ROS2_DEVS'' \<rparr>
                   (discovered_participants s)\<rparr>"
  let ?f = "\<lambda>s endpoint. check_endpoint_matching
                       (s\<lparr>discovered_endpoints :=
                            AList.update (ep_guid endpoint) endpoint (discovered_endpoints s)\<rparr>)
                       endpoint"
  have s1: "match_table_inv ?s1" using assms by (rule match_table_inv_cong) simp_all
  have "match_table_inv (foldl ?f ?s1 (dm_endpoints msg))"
  proof (rule foldl_invariant [where Q = match_table_inv])
    show "match_table_inv ?s1" by (rule s1)
  next
    fix s :: DDSParticipant and x
    assume q: "match_table_inv s"
    let ?s2 = "s\<lparr>discovered_endpoints := AList.update (ep_guid x) x (discovered_endpoints s)\<rparr>"
    have "match_table_inv ?s2" using q by (rule inv_store_endpoint)
    moreover have "ep_guid x \<in> fst ` set (discovered_endpoints ?s2)" by (simp add: keys_update)
    ultimately show "match_table_inv (check_endpoint_matching ?s2 x)"
      using inv_check_endpoint_matching [of ?s2 x] by blast
  qed
  with False show ?thesis by (simp add: process_discovery_message_def Let_def)
qed

lemma inv_drop_endpoint:
  assumes "match_table_inv s"
  shows "match_table_inv (s\<lparr>discovered_endpoints := AList.delete e (discovered_endpoints s),
           matched_endpoints := map (\<lambda>(local_guid, matched). (local_guid, matched - {e}))
                                  (matched_endpoints s)\<rparr>)"
proof (rule match_table_invI)
  fix l S'
  let ?s1 = "s\<lparr>discovered_endpoints := AList.delete e (discovered_endpoints s),
           matched_endpoints := map (\<lambda>(local_guid, matched). (local_guid, matched - {e}))
                                  (matched_endpoints s)\<rparr>"
  assume "(l, S') \<in> set (matched_endpoints ?s1)"
  then obtain S where S: "(l, S) \<in> set (matched_endpoints s)" and S': "S' = S - {e}"
    by auto
  from match_table_invD [OF assms S]
  have "l \<in> local_guids s" and "S \<subseteq> fst ` set (discovered_endpoints s)" by simp_all
  moreover have "local_guids ?s1 = local_guids s" by (rule local_guids_cong) simp_all
  moreover have "fst ` set (discovered_endpoints ?s1) = fst ` set (discovered_endpoints s) - {e}"
    by (simp add: keys_delete)
  ultimately show "l \<in> local_guids ?s1 \<and> S' \<subseteq> fst ` set (discovered_endpoints ?s1)"
    using S' by blast
qed

lemma inv_remove_expired:
  assumes "match_table_inv s"
  shows "match_table_inv (remove_expired s guid)"
proof -
  let ?s1 = "s\<lparr>discovered_participants := AList.delete guid (discovered_participants s)\<rparr>"
  have s1: "match_table_inv ?s1" using assms by (rule match_table_inv_cong) simp_all
  have "match_table_inv (foldl (\<lambda>s ep_guid'.
                  s\<lparr>discovered_endpoints := AList.delete ep_guid' (discovered_endpoints s),
                    matched_endpoints :=
                      map (\<lambda>(local_guid, matched). (local_guid, matched - {ep_guid'}))
                        (matched_endpoints s)\<rparr>) ?s1
           (map fst (filter (\<lambda>(ep_guid', ep_info). ep_participant_guid ep_info = guid)
                                 (discovered_endpoints ?s1))))"
    by (rule foldl_invariant [where Q = match_table_inv]) (simp_all add: inv_drop_endpoint s1)
  then show ?thesis by (simp add: remove_expired_def Let_def)
qed

lemma inv_cleanup:
  "match_table_inv s \<Longrightarrow> match_table_inv (cleanup_expired_participants s now)"
  unfolding cleanup_expired_participants_def Let_def
  by (rule foldl_invariant [where Q = match_table_inv]) (simp_all add: inv_remove_expired)

lemma inv_apply_op: "match_table_inv s \<Longrightarrow> match_table_inv (apply_op s op)"
proof (cases op)
  case (WriteData g d now)
  assume inv: "match_table_inv s"
  show ?thesis
  proof (cases "write_data s g d now")
    case (Inl e)
    with WriteData inv show ?thesis by simp
  next
    case (Inr r)
    then obtain b s' where "write_data s g d now = Inr (b, s')" by (cases r) simp
    with WriteData inv inv_write_data [of s g d now b s'] show ?thesis by simp
  qed
qed (simp_all add: inv_create_writer inv_create_reader inv_process_discovery_message
       inv_cleanup inv_timeAdvance inv_intTransition)

lemma inv_new_participant: "match_table_inv (new_participant g d p l)"
  by (simp add: match_table_inv_def new_participant_def)

lemma inv_run_ops: "match_table_inv s \<Longrightarrow> match_table_inv (run_ops s ops)"
  unfolding run_ops_def
  by (rule foldl_invariant [where Q = match_table_inv]) (simp_all add: inv_apply_op)

lemma matched_set_entry:
  "e \<in> matched_set s g \<Longrightarrow> \<exists>S. (g, S) \<in> set (matched_endpoints s) \<and> e \<in> S"
  by (cases "map_of (matched_endpoints s) g") (auto simp add: matched_set_def dest: map_of_SomeD)

text \<open>
  C3 (as stated, refuted).  After B has matched its reader \<open>r1\<close> with A's writer \<open>w1\<close>,
  \<open>w1\<close> is in the matched set of \<open>r1\<close> but \<open>r1\<close> is not in the matched set of \<open>w1\<close>:
  only the entry of the local endpoint is written.
\<close>

theorem match_table_not_symmetric:
  "''w1'' \<in> matched_set (after_discovery default_qos default_qos) ''r1'' \<and>
   ''r1'' \<notin> matched_set (after_discovery default_qos default_qos) ''w1''"
  by (simp add: scenario_defs)

text \<open>
  C3 (amended).  In every reachable state of a Domain Participant the Match Table is
  one-directional: every key is the guid of a local endpoint and every member of a
  matched set is the guid of a stored discovered endpoint (a successful match inserts
  the remote guid under the local guid only).  After the lease sweep, a guid that is no
  longer a stored discovered endpoint, in particular every endpoint the sweep deleted,
  is in no matched set.
\<close>

theorem match_table_one_directional:
  "match_table_inv (run_ops (new_participant guid did period lease) ops) \<and>
   (\<forall>now e g. e \<notin> fst ` set (discovered_endpoints
        (cleanup_expired_participants (run_ops (new_participant guid did period lease) ops) now)) \<longrightarrow>
      e \<notin> matched_set
        (cleanup_expired_participants (run_ops (new_participant guid did period lease) ops) now) g)"
proof (intro conjI allI impI)
  let ?s = "run_ops (new_participant guid did period lease) ops"
  show inv: "match_table_inv ?s" by (rule inv_run_ops) (rule inv_new_participant)
  fix now e g
  let ?s' = "cleanup_expired_participants ?s now"
  assume gone: "e \<notin> fst ` set (discovered_endpoints ?s')"
  have inv': "match_table_inv ?s'" using inv by (rule inv_cleanup)
  show "e \<notin> matched_set ?s' g"
  proof
    assume "e \<in> matched_set ?s' g"
    then obtain S where "(g, S) \<in> set (matched_endpoints ?s')" and "e \<in> S"
      using matched_set_entry by blast
    with match_table_invD [OF inv'] gone show False by blast
  qed
qed

theorem match_table_one_directional_witness:
  "''w1'' \<in> matched_set (run_ops (new_participant ''B'' 0 1 1)
       [CreateReader ''r1'' ''/t'' ''T'' default_qos, ProcessDiscovery owned_announcement 0]) ''r1'' \<and>
   match_table_inv (run_ops (new_participant ''B'' 0 1 1)
       [CreateReader ''r1'' ''/t'' ''T'' default_qos, ProcessDiscovery owned_announcement 0]) \<and>
   ''w1'' \<notin> fst ` set (discovered_endpoints (cleanup_expired_participants
       (run_ops (new_participant ''B'' 0 1 1)
         [CreateReader ''r1'' ''/t'' ''T'' default_qos, ProcessDiscovery owned_announcement 0]) 2)) \<and>
   ''w1'' \<notin> matched_set (cleanup_expired_participants
       (run_ops (new_participant ''B'' 0 1 1)
         [CreateReader ''r1'' ''/t'' ''T'' default_qos, ProcessDiscovery owned_announcement 0]) 2) ''r1''"
proof -
  let ?s = "run_ops (new_participant ''B'' 0 1 1)
       [CreateReader ''r1'' ''/t'' ''T'' default_qos, ProcessDiscovery owned_announcement 0]"
  have a: "''w1'' \<in> matched_set ?s ''r1''"
    by (simp add: run_ops_def owned_announcement_def scenario_defs)
  have b: "''w1'' \<notin> fst ` set (discovered_endpoints (cleanup_expired_participants ?s 2))"
    by (simp add: run_ops_def owned_announcement_def scenario_defs)
  from match_table_one_directional [of "''B''" 0 1 1
      "[CreateReader ''r1'' ''/t'' ''T'' default_qos, ProcessDiscovery owned_announcement 0]"]
  have c: "match_table_inv ?s"
    and d: "''w1'' \<notin> fst ` set (discovered_endpoints (cleanup_expired_participants ?s 2)) \<longrightarrow>
            ''w1'' \<notin> matched_set (cleanup_expired_participants ?s 2) ''r1''"
    by blast+
  from a b c d show ?thesis by blast
qed

section \<open>Properties of the discovery database\<close>

lemma db_inv_empty: "db_inv empty_db"
  by (simp add: db_inv_def empty_db_def)

lemma db_inv_add_participant: "db_inv db \<Longrightarrow> db_inv (add_participant db info)"
  by (auto simp add: db_inv_def add_participant_def update_conv')

lemma db_inv_add_endpoint: "db_inv db \<Longrightarrow> db_inv (add_endpoint db info)"
  by (auto simp add: db_inv_def add_endpoint_def Let_def update_conv' split: option.splits)

lemma db_inv_remove_endpoint: "db_inv db \<Longrightarrow> db_inv (remove_endpoint db g)"
  by (auto simp add: db_inv_def remove_endpoint_def Let_def update_conv' delete_conv'
      split: option.splits)

lemma participants_remove_endpoint: "participants (remove_endpoint db g) = participants db"
  by (simp add: remove_endpoint_def Let_def split: option.splits)

lemma endpoints_remove_endpoint:
  "map_of (endpoints (remove_endpoint db g)) k = (if k = g then None else map_of (endpoints db) k)"
  by (simp add: remove_endpoint_def Let_def delete_conv' split: option.splits)

lemma fold_remove_endpoint:
  "db_inv db \<Longrightarrow>
   db_inv (foldl remove_endpoint db gs) \<and>
   participants (foldl remove_endpoint db gs) = participants db \<and>
   (\<forall>k. map_of (endpoints (foldl remove_endpoint db gs)) k =
        (if k \<in> set gs then None else map_of (endpoints db) k))"
proof (induction gs arbitrary: db)
  case Nil
  then show ?case by simp
next
  case (Cons g gs)
  from Cons.IH [OF db_inv_remove_endpoint [OF Cons.prems], of g]
  show ?case by (simp add: participants_remove_endpoint endpoints_remove_endpoint)
qed

lemma db_inv_drop_participant:
  "db_inv db \<Longrightarrow> db_inv (db\<lparr>participants := AList.delete g (participants db)\<rparr>)"
  by (auto simp add: db_inv_def delete_conv')

lemma filter_key_member:
  "(k, e) \<in> set al \<Longrightarrow> P e \<Longrightarrow> k \<in> set (map fst (filter (\<lambda>(k', e'). P e') al))"
  by (induction al) auto

lemma remove_participant_post:
  assumes "db_inv db"
  shows "db_inv (remove_participant db g) \<and>
         map_of (participants (remove_participant db g)) g = None \<and>
         (\<forall>k e. map_of (endpoints (remove_participant db g)) k = Some e \<longrightarrow>
                ep_participant_guid e \<noteq> g)"
proof -
  define db1 where "db1 = (if map_of (participants db) g \<noteq> None
                 then db\<lparr>participants := AList.delete g (participants db)\<rparr> else db)"
  define gs where "gs = map fst (filter (\<lambda>(ep_guid', ep_info). ep_participant_guid ep_info = g)
                                 (endpoints db1))"
  have rp: "remove_participant db g = foldl remove_endpoint db1 gs"
    by (simp add: remove_participant_def Let_def db1_def gs_def)
  have inv1: "db_inv db1" using assms by (simp add: db1_def db_inv_drop_participant)
  have p1: "map_of (participants db1) g = None"
    by (cases "map_of (participants db) g") (simp_all add: db1_def delete_conv')
  from fold_remove_endpoint [OF inv1, of gs]
  have f1: "db_inv (foldl remove_endpoint db1 gs)"
    and f2: "participants (foldl remove_endpoint db1 gs) = participants db1"
    and f3: "\<And>k. map_of (endpoints (foldl remove_endpoint db1 gs)) k =
        (if k \<in> set gs then None else map_of (endpoints db1) k)"
    by blast+
  have f4: "\<And>k e. map_of (endpoints (foldl remove_endpoint db1 gs)) k = Some e \<Longrightarrow>
          ep_participant_guid e \<noteq> g"
  proof
    fix k e
    assume s: "map_of (endpoints (foldl remove_endpoint db1 gs)) k = Some e"
      and o: "ep_participant_guid e = g"
    from s f3 [of k] have k: "k \<notin> set gs" and m: "map_of (endpoints db1) k = Some e"
      by (simp_all split: if_splits)
    from m have "(k, e) \<in> set (endpoints db1)" by (rule map_of_SomeD)
    from filter_key_member [OF this, of "\<lambda>e. ep_participant_guid e = g"] o
    have "k \<in> set gs" by (simp add: gs_def)
    with k show False by simp
  qed
  from f1 f2 p1 f4 show ?thesis unfolding rp by metis
qed

lemma db_inv_cleanup_expired: "db_inv db \<Longrightarrow> db_inv (cleanup_expired db now)"
  unfolding cleanup_expired_def Let_def
  by (rule foldl_invariant [where Q = db_inv]) (simp_all add: remove_participant_post)

lemma db_inv_apply: "db_inv db \<Longrightarrow> db_inv (apply_db_op db op)"
  by (cases op) (simp_all add: db_inv_add_participant db_inv_add_endpoint
      db_inv_remove_endpoint remove_participant_post db_inv_cleanup_expired)

lemma db_inv_run: "db_inv (run_db ops)"
  unfolding run_db_def
  by (rule foldl_invariant [where Q = db_inv]) (simp_all add: db_inv_apply db_inv_empty)

text \<open>
  C10.  In every database reachable by a sequence of add_participant, add_endpoint,
  remove_endpoint, remove_participant and cleanup_expired calls, the topic cache maps no
  topic to the empty set; and after \<open>remove_participant g\<close> on such a database no stored
  participant has guid \<open>g\<close> and no stored endpoint has participant_guid \<open>g\<close>.
\<close>

theorem discovery_database_invariant:
  "(\<forall>t. map_of (topic_cache (run_db ops)) t \<noteq> Some {}) \<and>
   (\<forall>g k info. map_of (participants (remove_participant (run_db ops) g)) k = Some info \<longrightarrow>
       pi_guid info \<noteq> g) \<and>
   (\<forall>g k e. map_of (endpoints (remove_participant (run_db ops) g)) k = Some e \<longrightarrow>
       ep_participant_guid e \<noteq> g)"
proof (intro conjI allI impI)
  fix t
  from db_inv_run [of ops] show "map_of (topic_cache (run_db ops)) t \<noteq> Some {}"
    by (simp add: db_inv_def)
next
  fix g k info
  assume a: "map_of (participants (remove_participant (run_db ops) g)) k = Some info"
  from remove_participant_post [OF db_inv_run, of ops g]
  have i: "db_inv (remove_participant (run_db ops) g)"
    and n: "map_of (participants (remove_participant (run_db ops) g)) g = None" by simp_all
  from i a have "pi_guid info = k" unfolding db_inv_def by blast
  with a n show "pi_guid info \<noteq> g" by auto
next
  fix g k e
  assume "map_of (endpoints (remove_participant (run_db ops) g)) k = Some e"
  with remove_participant_post [OF db_inv_run, of ops g]
  show "ep_participant_guid e \<noteq> g" by blast
qed

theorem discovery_database_invariant_witness:
  "map_of (topic_cache (run_db example_db_ops)) ''/t'' = Some {''e1'', ''e2''} \<and>
   map_of (topic_cache (run_db example_db_ops)) ''/u'' = None \<and>
   map_of (topic_cache (run_db example_db_ops)) ''/t'' \<noteq> Some {} \<and>
   map_of (participants (run_db example_db_ops)) ''A'' = Some (participant_of ''A'' 1) \<and>
   map_of (endpoints (run_db example_db_ops)) ''e1'' = Some (endpoint_of ''e1'' ''A'' ''/t'') \<and>
   map_of (participants (remove_participant (run_db example_db_ops) ''A'')) ''B''
     = Some (participant_of ''B'' 5) \<and>
   pi_guid (participant_of ''B'' 5) \<noteq> ''A'' \<and>
   map_of (endpoints (remove_participant (run_db example_db_ops) ''A'')) ''e2''
     = Some (endpoint_of ''e2'' ''B'' ''/t'') \<and>
   ep_participant_guid (endpoint_of ''e2'' ''B'' ''/t'') \<noteq> ''A''"
proof -
  have run: "run_db example_db_ops =
     \<lparr> participants = [(''A'', participant_of ''A'' 1), (''B'', participant_of ''B'' 5)],
       endpoints = [(''e1'', endpoint_of ''e1'' ''A'' ''/t''), (''e2'', endpoint_of ''e2'' ''B'' ''/t'')],
       topic_cache = [(''/t'', {''e2'', ''e1''})] \<rparr>"
    by (simp add: run_db_def example_db_ops_def empty_db_def add_participant_def
        add_endpoint_def remove_endpoint_def endpoint_of_def participant_of_def Let_def)
  have a: "map_of (topic_cache (run_db example_db_ops)) ''/t'' = Some {''e1'', ''e2''}"
    and b: "map_of (topic_cache (run_db example_db_ops)) ''/u'' = None"
    and c: "map_of (participants (run_db example_db_ops)) ''A'' = Some (participant_of ''A'' 1)"
    and d: "map_of (endpoints (run_db example_db_ops)) ''e1'' = Some (endpoint_of ''e1'' ''A'' ''/t'')"
    by (auto simp add: run)
  have e: "map_of (participants (remove_participant (run_db example_db_ops) ''A'')) ''B''
     = Some (participant_of ''B'' 5)"
    and f: "map_of (endpoints (remove_participant (run_db example_db_ops) ''A'')) ''e2''
     = Some (endpoint_of ''e2'' ''B'' ''/t'')"
    by (simp_all add: run remove_participant_def remove_endpoint_def endpoint_of_def
        participant_of_def Let_def)
  note t = discovery_database_invariant [of example_db_ops]
  from t have g: "map_of (topic_cache (run_db example_db_ops)) ''/t'' \<noteq> Some {}" by blast
  from t e have h: "pi_guid (participant_of ''B'' 5) \<noteq> ''A''" by blast
  from t f have i: "ep_participant_guid (endpoint_of ''e2'' ''B'' ''/t'') \<noteq> ''A''" by blast
  from a b c d e f g h i show ?thesis by blast
qed

section \<open>Properties of the transport layer\<close>

lemma select_transport_cases:
  "select_transport m =
     (if source_node m = destination_node m then Inr SHARED_MEMORY else Inl AttributeError)"
  by (simp add: select_transport_def message_type_member_def)

text \<open>
  C7 (the code at the failing input).  A message between two different nodes is assigned
  no transport class, whether its QoS is RELIABLE or absent: \<^verbatim>\<open>_select_transport\<close> raises
  AttributeError at its second test, because \<^verbatim>\<open>MessageType\<close> has no member DISCOVERY.
  Only the shared-memory class of a message with equal source and destination is ever
  assigned.
\<close>

theorem select_transport_raises:
  "select_transport local_message = Inr SHARED_MEMORY \<and>
   select_transport reliable_message = Inl AttributeError \<and>
   select_transport best_effort_message = Inl AttributeError"
  by (simp add: select_transport_cases local_message_def reliable_message_def
      best_effort_message_def)

text \<open>
  C5 (the code at the failing input).  A message whose source and destination are the
  same node is fed into a fresh multiplexer.  Whatever the configured latencies and loss
  rate, the router keeps the message in its own state, the shared-memory transport has
  received nothing, the multiplexer's time advance is infinite and nothing is emitted on
  \<^verbatim>\<open>data_out\<close>: \<^verbatim>\<open>extTransition\<close> of the router and of the shared-memory transport return
  the port dict as their new state, and their \<^verbatim>\<open>outputFnc\<close> is always empty.
\<close>

theorem shared_memory_message_never_emitted:
  "select_transport local_message = Inr SHARED_MEMORY \<and>
   mux_receive new_multiplexer local_message = Inr holding_local_message \<and>
   router holding_local_message = Some (shm_out, local_message) \<and>
   shm_transport holding_local_message = None \<and>
   mux_timeAdvance config holding_local_message = Infty \<and>
   mux_data_out config holding_local_message = []"
  by (simp add: select_transport_cases local_message_def mux_receive_def new_multiplexer_def
      holding_local_message_def router_extTransition_def mux_timeAdvance_def mux_data_out_def
      router_timeAdvance_def shm_timeAdvance_def net_timeAdvance_def Let_def)

end
